theory Spec2Isabelle
  imports Complex_Main
begin

section \<open>The market reconciliation engine of poe\_tracker (api.py, data.py)\<close>

text \<open>
  The development embeds the pure part of \<^verbatim>\<open>poe_tracker/api.py\<close>: the value
  extractor, the chaos-equivalent resolver, the key normaliser, the deduplicator, the
  derived ratio calculator, the snapshot ordering, the bounded detail fetch and the alias
  cascade of the source fetchers.

  Conventions of the embedding.
  \<^item> A value decoded by \<^verbatim>\<open>json.loads\<close> is a \<open>json\<close>; Python's \<^verbatim>\<open>None\<close> is
    \<open>JNull\<close>. A \<^verbatim>\<open>dict\<close> is an association list read with \<open>map_of\<close>.
  \<^item> A Python \<^verbatim>\<open>float\<close> is the real number it denotes; rounding, infinities and
    NaN are outside the model. An \<^verbatim>\<open>int\<close> is unbounded.
  \<^item> An exception is the \<open>Inl\<close> of a sum; the result of a call that returns is \<open>Inr\<close>.
  \<^item> \<^verbatim>\<open>float(s)\<close> on a \<^verbatim>\<open>str\<close> is a parameter \<open>pf\<close> of the model:
    \<open>pf s = Some v\<close> when the built-in returns \<open>v\<close>, \<open>None\<close> when it raises
    \<^verbatim>\<open>ValueError\<close>. Every theorem holds for every such parser.
\<close>

subsection \<open>JSON values and exceptions\<close>

datatype json =
    JNull
  | JBool bool
  | JInt int
  | JFloat real
  | JStr string
  | JList "json list"
  | JDict "(string \<times> json) list"

datatype exn = OverflowError | AttributeError | TypeError | ApiError string

type_synonym pydict = "(string \<times> json) list"

definition dict_get :: "pydict \<Rightarrow> string \<Rightarrow> json" where
  \<comment> \<open>\<^verbatim>\<open>d.get(k)\<close>: the value, \<^verbatim>\<open>None\<close> for a missing key.\<close>
  "dict_get d k = (case map_of d k of None \<Rightarrow> JNull | Some v \<Rightarrow> v)"

definition bind_exn :: "exn + 'a \<Rightarrow> ('a \<Rightarrow> exn + 'b) \<Rightarrow> exn + 'b" where
  \<comment> \<open>Sequencing of two computations: the first exception raised propagates.\<close>
  "bind_exn m f = (case m of Inl e \<Rightarrow> Inl e | Inr v \<Rightarrow> f v)"

subsection \<open>Value Extractor: \<^verbatim>\<open>_extract_float\<close> (api.py 93--101)\<close>

definition DBL_OVERFLOW :: int where
  \<comment> \<open>The least positive integer that \<^verbatim>\<open>float()\<close> refuses: it rounds (half to even)
      to \<open>2 ^ 1024\<close>, beyond the largest double.\<close>
  "DBL_OVERFLOW = 2 ^ 1024 - 2 ^ 970"

definition float_of_int :: "int \<Rightarrow> exn + real" where
  \<comment> \<open>\<^verbatim>\<open>float(i)\<close> for an \<^verbatim>\<open>int\<close>: \<^verbatim>\<open>OverflowError: int too large to convert to float\<close>.\<close>
  "float_of_int i = (if \<bar>i\<bar> < DBL_OVERFLOW then Inr (real_of_int i) else Inl OverflowError)"

fun extract_float :: "(string \<Rightarrow> real option) \<Rightarrow> json \<Rightarrow> exn + real option" where
  \<comment> \<open>\<^verbatim>\<open>isinstance(value, (int, float))\<close> holds for \<^verbatim>\<open>bool\<close> too: \<^verbatim>\<open>bool\<close> is a
      subclass of \<^verbatim>\<open>int\<close>, and \<^verbatim>\<open>float(True)\<close> is \<open>1.0\<close>.\<close>
  "extract_float pf (JBool b) = Inr (Some (if b then 1 else 0))"
| "extract_float pf (JInt i) = bind_exn (float_of_int i) (\<lambda>r. Inr (Some r))"
| "extract_float pf (JFloat r) = Inr (Some r)"
| "extract_float pf (JStr s) = Inr (pf s)"
| "extract_float pf JNull = Inr None"
| "extract_float pf (JList xs) = Inr None"
| "extract_float pf (JDict d) = Inr None"

definition truthy_float :: "real option \<Rightarrow> bool" where
  \<comment> \<open>Truth value of an \<^verbatim>\<open>Optional[float]\<close>: \<^verbatim>\<open>None\<close> and \<open>0.0\<close> are false.\<close>
  "truthy_float v = (case v of None \<Rightarrow> False | Some x \<Rightarrow> x \<noteq> 0)"

fun or_chain :: "(exn + real option) list \<Rightarrow> exn + real option" where
  \<comment> \<open>\<^verbatim>\<open>a or b or ... or z\<close> on \<^verbatim>\<open>Optional[float]\<close> operands: the first truthy operand,
      else the last operand; operands after the chosen one are not evaluated.\<close>
  "or_chain [] = Inr None"
| "or_chain [x] = x"
| "or_chain (x # y # ys) =
     (case x of Inl e \<Rightarrow> Inl e
      | Inr v \<Rightarrow> if truthy_float v then Inr v else or_chain (y # ys))"

definition get_float :: "(string \<Rightarrow> real option) \<Rightarrow> pydict \<Rightarrow> string \<Rightarrow> exn + real option" where
  \<comment> \<open>\<^verbatim>\<open>_extract_float(line.get(k))\<close>\<close>
  "get_float pf line k = extract_float pf (dict_get line k)"

subsection \<open>Chaos-Equivalent Resolver: \<^verbatim>\<open>_compute_chaos_from_line\<close> (api.py 161--191)\<close>

definition direct_fields :: "string list" where
  "direct_fields =
     [''chaosEquivalent'', ''chaosValue'', ''secondaryValue'', ''valueChaos'', ''secondary'']"

definition rate_cascade :: "(string \<Rightarrow> real option) \<Rightarrow> pydict \<Rightarrow> real option \<Rightarrow> exn + real option" where
  \<comment> \<open>The body of \<^verbatim>\<open>if isinstance(rate, dict):\<close> (api.py 179--190), falling through to
      the final \<^verbatim>\<open>return None\<close>.\<close>
  "rate_cascade pf rate divine_rate =
     bind_exn (get_float pf rate ''chaosPerItem'') (\<lambda>chaos_per_item.
       case chaos_per_item of Some c \<Rightarrow> Inr (Some c)
       | None \<Rightarrow>
     bind_exn (get_float pf rate ''chaos'') (\<lambda>items_per_chaos.
       if truthy_float items_per_chaos \<and> the items_per_chaos > 0
       then Inr (Some (1 / the items_per_chaos))
       else
     bind_exn (get_float pf rate ''chaosValue'') (\<lambda>chaos_eq.
       case chaos_eq of Some c \<Rightarrow> Inr (Some c)
       | None \<Rightarrow>
     bind_exn (get_float pf rate ''divine'') (\<lambda>divine_value.
       if divine_value \<noteq> None \<and> truthy_float divine_rate
       then Inr (Some (the divine_value * the divine_rate))
       else Inr None))))"

definition compute_chaos_from_line ::
  "(string \<Rightarrow> real option) \<Rightarrow> pydict \<Rightarrow> real option \<Rightarrow> exn + real option" where
  "compute_chaos_from_line pf line divine_rate =
     bind_exn (or_chain (map (get_float pf line) direct_fields)) (\<lambda>direct.
       case direct of Some d \<Rightarrow> Inr (Some d)
       | None \<Rightarrow>
     bind_exn (get_float pf line ''primaryValue'') (\<lambda>primary_value.
       if primary_value \<noteq> None \<and> truthy_float divine_rate
       then Inr (Some (the primary_value * the divine_rate))
       else
     bind_exn (get_float pf line ''volumePrimaryValue'') (\<lambda>volume_primary.
       if volume_primary \<noteq> None \<and> truthy_float divine_rate
       then Inr (Some (the volume_primary * the divine_rate))
       else
       case dict_get line ''rate'' of
         JDict rate \<Rightarrow> rate_cascade pf rate divine_rate
       | _ \<Rightarrow> Inr None)))"

definition cascade_tail ::
  "real option \<Rightarrow> real option \<Rightarrow> real option \<Rightarrow> real option \<Rightarrow> (exn + real option)
   \<Rightarrow> exn + real option" where
  \<comment> \<open>The control skeleton of \<^verbatim>\<open>_compute_chaos_from_line\<close> once its three field
      reads have returned \<open>direct\<close>, \<open>primary_value\<close> and \<open>volume_primary\<close>.\<close>
  "cascade_tail direct primary_value volume_primary divine_rate nested =
     bind_exn (Inr direct) (\<lambda>direct.
       case direct of Some d \<Rightarrow> Inr (Some d)
       | None \<Rightarrow>
     bind_exn (Inr primary_value) (\<lambda>primary_value.
       if primary_value \<noteq> None \<and> truthy_float divine_rate
       then Inr (Some (the primary_value * the divine_rate))
       else
     bind_exn (Inr volume_primary) (\<lambda>volume_primary.
       if volume_primary \<noteq> None \<and> truthy_float divine_rate
       then Inr (Some (the volume_primary * the divine_rate))
       else nested)))"

subsection \<open>The specification's reading of the extractor and of the cascade\<close>

fun numeric_value :: "(string \<Rightarrow> real option) \<Rightarrow> json \<Rightarrow> real option" where
  \<comment> \<open>Section 4.1 of the specification: the number itself for a JSON number, the parsed
      number for a string that parses, absence for every other value.\<close>
  "numeric_value pf (JInt i) = Some (real_of_int i)"
| "numeric_value pf (JFloat r) = Some r"
| "numeric_value pf (JStr s) = pf s"
| "numeric_value pf (JBool b) = None"
| "numeric_value pf JNull = None"
| "numeric_value pf (JList xs) = None"
| "numeric_value pf (JDict d) = None"

fun in_float_range :: "json \<Rightarrow> bool" where
  \<comment> \<open>Every value but an integer too large for a double.\<close>
  "in_float_range (JInt i) = (\<bar>i\<bar> < DBL_OVERFLOW)"
| "in_float_range (JBool b) = True"
| "in_float_range (JFloat r) = True"
| "in_float_range (JStr s) = True"
| "in_float_range JNull = True"
| "in_float_range (JList xs) = True"
| "in_float_range (JDict d) = True"

definition cascade_fields :: "string list" where
  \<comment> \<open>The fields of a line the cascade reads.\<close>
  "cascade_fields = direct_fields @ [''primaryValue'', ''volumePrimaryValue'']"

definition rate_fields :: "string list" where
  \<comment> \<open>The fields of the nested rate object the cascade reads.\<close>
  "rate_fields = [''chaosPerItem'', ''chaos'', ''chaosValue'', ''divine'']"

definition fields_in_range :: "pydict \<Rightarrow> string list \<Rightarrow> bool" where
  \<comment> \<open>None of the named fields holds an integer too large for a double.\<close>
  "fields_in_range d ks = list_all (\<lambda>k. in_float_range (dict_get d k)) ks"

definition sample_pf :: "string \<Rightarrow> real option" where
  \<comment> \<open>A parser for the examples: it agrees with \<^verbatim>\<open>float()\<close> on the one numeric string
      they use.\<close>
  "sample_pf s = (if s = ''12.5'' then Some (25 / 2) else None)"

fun first_some :: "'a option list \<Rightarrow> 'a option" where
  \<comment> \<open>A cascade: the first alternative that succeeds.\<close>
  "first_some [] = None"
| "first_some (None # xs) = first_some xs"
| "first_some (Some x # xs) = Some x"

definition field_value :: "(string \<Rightarrow> real option) \<Rightarrow> pydict \<Rightarrow> string \<Rightarrow> real option" where
  \<comment> \<open>The numeric value of a field of a record, when the field yields one.\<close>
  "field_value pf d k = (case get_float pf d k of Inr x \<Rightarrow> x | Inl e \<Rightarrow> None)"

definition times_rate :: "real option \<Rightarrow> real option \<Rightarrow> real option" where
  \<comment> \<open>``value times conversion rate, if both present''\<close>
  "times_rate a r = (case (a, r) of (Some x, Some y) \<Rightarrow> Some (x * y) | _ \<Rightarrow> None)"

definition reciprocal_nonzero :: "real option \<Rightarrow> real option" where
  \<comment> \<open>``reciprocal of an items-per-base-unit field (guarded against zero)''\<close>
  "reciprocal_nonzero a =
     (case a of Some x \<Rightarrow> if x \<noteq> 0 then Some (1 / x) else None | None \<Rightarrow> None)"

definition reciprocal_positive :: "real option \<Rightarrow> real option" where
  \<comment> \<open>The reciprocal as amended: of a positive field only, the guard of the source being
      \<^verbatim>\<open>items_per_chaos > 0\<close>.\<close>
  "reciprocal_positive a =
     (case a of Some x \<Rightarrow> if x > 0 then Some (1 / x) else None | None \<Rightarrow> None)"

definition resolve_cascade ::
  "(real option \<Rightarrow> real option) \<Rightarrow> (string \<Rightarrow> real option) \<Rightarrow> pydict \<Rightarrow> real option
   \<Rightarrow> real option" where
  \<comment> \<open>Section 4.4 of the specification: the stages in the stated order, first success
      wins, absence as the fifth; \<open>recip\<close> is the reading of the reciprocal.\<close>
  "resolve_cascade recip pf line rate = first_some
     [first_some (map (field_value pf line) direct_fields),
      times_rate (field_value pf line ''primaryValue'') rate,
      times_rate (field_value pf line ''volumePrimaryValue'') rate,
      (case dict_get line ''rate'' of
         JDict r \<Rightarrow> first_some
           [field_value pf r ''chaosPerItem'',
            recip (field_value pf r ''chaos''),
            field_value pf r ''chaosValue'',
            times_rate (field_value pf r ''divine'') rate]
       | _ \<Rightarrow> None)]"

definition resolveValue_spec ::
  "(string \<Rightarrow> real option) \<Rightarrow> pydict \<Rightarrow> real option \<Rightarrow> real option" where
  \<comment> \<open>The cascade as section 4.4 words it.\<close>
  "resolveValue_spec pf line rate = resolve_cascade reciprocal_nonzero pf line rate"

definition resolveValue_amended ::
  "(string \<Rightarrow> real option) \<Rightarrow> pydict \<Rightarrow> real option \<Rightarrow> real option" where
  \<comment> \<open>The cascade as amended: the reciprocal is taken of a positive field only.\<close>
  "resolveValue_amended pf line rate = resolve_cascade reciprocal_positive pf line rate"

subsection \<open>Strings\<close>

text \<open>
  A \<open>char\<close> is a code point below 256 (Latin-1); text with code points beyond that range
  is outside the model. The character classes below are those of \<^verbatim>\<open>str.isspace\<close>
  (which \<^verbatim>\<open>str.strip\<close>, \<^verbatim>\<open>str.split\<close> and the regular expression class \<^verbatim>\<open>\s\<close>
  use), of the regular expression class \<^verbatim>\<open>\w\<close> on a \<^verbatim>\<open>str\<close> pattern, and of
  \<^verbatim>\<open>str.lower\<close>, on these code points.
\<close>

definition is_space :: "char \<Rightarrow> bool" where
  \<comment> \<open>Tab to carriage return, the four separators, the space, NEL and the no-break
      space.\<close>
  "is_space c = (let n = (of_char c :: nat) in
     (9 \<le> n \<and> n \<le> 13) \<or> (28 \<le> n \<and> n \<le> 32) \<or> n = 133 \<or> n = 160)"

definition is_word :: "char \<Rightarrow> bool" where
  \<comment> \<open>Digits, letters and the underscore; of the upper half the ordinal indicators, the
      micro sign, the superscript digits, the fractions and the letters.\<close>
  "is_word c = (let n = (of_char c :: nat) in
     (48 \<le> n \<and> n \<le> 57) \<or> (65 \<le> n \<and> n \<le> 90) \<or> (97 \<le> n \<and> n \<le> 122) \<or> n = 95
     \<or> n = 170 \<or> n = 178 \<or> n = 179 \<or> n = 181 \<or> n = 185 \<or> n = 186
     \<or> (188 \<le> n \<and> n \<le> 190) \<or> (192 \<le> n \<and> n \<le> 214) \<or> (216 \<le> n \<and> n \<le> 246)
     \<or> (248 \<le> n \<and> n \<le> 255))"

definition lower_char :: "char \<Rightarrow> char" where
  \<comment> \<open>The capital letters, those of the upper half but for the multiplication sign
      included, are 32 below their small letters.\<close>
  "lower_char c = (let n = (of_char c :: nat) in
     if (65 \<le> n \<and> n \<le> 90) \<or> (192 \<le> n \<and> n \<le> 214) \<or> (216 \<le> n \<and> n \<le> 222)
     then char_of (n + 32) else c)"

definition lower :: "string \<Rightarrow> string" where
  "lower s = map lower_char s"

definition strip :: "string \<Rightarrow> string" where
  "strip s = rev (dropWhile is_space (rev (dropWhile is_space s)))"

fun words_acc :: "string \<Rightarrow> string \<Rightarrow> string list" where
  "words_acc w [] = (if w = [] then [] else [w])"
| "words_acc w (c # cs) =
     (if is_space c then (if w = [] then words_acc [] cs else w # words_acc [] cs)
      else words_acc (w @ [c]) cs)"

definition split_ws :: "string \<Rightarrow> string list" where
  \<comment> \<open>\<^verbatim>\<open>s.split()\<close>\<close>
  "split_ws s = words_acc [] s"

fun join_sp :: "string list \<Rightarrow> string" where
  \<comment> \<open>\<^verbatim>\<open>" ".join(ws)\<close>\<close>
  "join_sp [] = []"
| "join_sp [w] = w"
| "join_sp (w # v # ws) = w @ '' '' @ join_sp (v # ws)"

fun starts_with :: "string \<Rightarrow> string \<Rightarrow> bool" where
  "starts_with t [] = True"
| "starts_with [] (c # cs) = False"
| "starts_with (x # xs) (c # cs) = (x = c \<and> starts_with xs cs)"

fun contains :: "string \<Rightarrow> string \<Rightarrow> bool" where
  \<comment> \<open>\<^verbatim>\<open>sub in text\<close>\<close>
  "contains [] sub = (sub = [])"
| "contains (x # xs) sub = (starts_with (x # xs) sub \<or> contains xs sub)"

fun digits_of :: "nat \<Rightarrow> string" where
  "digits_of n = (if n < 10 then [char_of (48 + n)] else digits_of (n div 10) @ [char_of (48 + n mod 10)])"

definition str_of_int :: "int \<Rightarrow> string" where
  \<comment> \<open>\<^verbatim>\<open>str(i)\<close> for an \<^verbatim>\<open>int\<close>\<close>
  "str_of_int i = (if i < 0 then CHR ''-'' # digits_of (nat (- i)) else digits_of (nat i))"

definition int_of_float :: "real \<Rightarrow> int" where
  \<comment> \<open>\<^verbatim>\<open>int(x)\<close> for a \<^verbatim>\<open>float\<close>: truncation towards zero\<close>
  "int_of_float x = (if 0 \<le> x then \<lfloor>x\<rfloor> else \<lceil>x\<rceil>)"

subsection \<open>Key Normalizer: \<^verbatim>\<open>_norm_key\<close>, \<^verbatim>\<open>_slug_key\<close>, \<^verbatim>\<open>_nopunct_key\<close>, \<^verbatim>\<open>_collect_keys\<close> (api.py 104--139)\<close>

definition norm_key :: "string \<Rightarrow> string" where
  "norm_key text = lower (strip text)"

definition slug_key :: "string \<Rightarrow> string" where
  "slug_key text = map (\<lambda>c. if c = CHR '' '' then CHR ''-'' else c) (norm_key text)"

definition nopunct_key :: "string \<Rightarrow> string" where
  \<comment> \<open>\<^verbatim>\<open>_PUNCT_CLEANER = re.compile(r"[^\w\s-]+")\<close> deletes every character that is
      neither a word character, nor white space, nor a hyphen.\<close>
  "nopunct_key text =
     join_sp (split_ws (filter (\<lambda>c. is_word c \<or> is_space c \<or> c = CHR ''-'') (norm_key text)))"

text \<open>
  \<^verbatim>\<open>variants = {_norm_key(value), _slug_key(value), _nopunct_key(value)}\<close> is a Python
  \<^verbatim>\<open>set\<close>: the order in which the loop visits its elements depends on their hashes. The
  model takes that order as a parameter \<open>iter\<close>, the function from the elements (as
  written) to the sequence the iteration yields.
\<close>

fun key_variants :: "(string list \<Rightarrow> string list) \<Rightarrow> json \<Rightarrow> string list" where
  \<comment> \<open>The keys one argument of \<^verbatim>\<open>_collect_keys\<close> contributes.\<close>
  "key_variants iter JNull = []"
| "key_variants iter (JBool b) = [str_of_int (if b then 1 else 0)]"
| "key_variants iter (JInt i) = [str_of_int i]"
| "key_variants iter (JFloat x) = [str_of_int (int_of_float x)]"
| "key_variants iter (JStr s) = filter (\<lambda>v. v \<noteq> []) (iter [norm_key s, slug_key s, nopunct_key s])"
| "key_variants iter (JList xs) = []"
| "key_variants iter (JDict d) = []"

definition collect_keys :: "(string list \<Rightarrow> string list) \<Rightarrow> json list \<Rightarrow> string list" where
  "collect_keys iter values = concat (map (key_variants iter) values)"

subsection \<open>\<^verbatim>\<open>CurrencyEntry\<close> (data.py 7--19)\<close>

text \<open>
  The fields carry the types the dataclass declares, a \<^verbatim>\<open>float\<close> being a real number:
  infinities and NaN are not represented.
\<close>

record CurrencyEntry =
  name :: string
  chaos_value :: real
  divine_value :: "real option"
  exalt_value :: "real option"
  change_percent :: "real option"
  sparkline :: "real list"
  trade_count :: "int option"
  details_id :: "string option"
  icon_url :: "string option"

definition truthy_int :: "int option \<Rightarrow> bool" where
  "truthy_int v = (case v of None \<Rightarrow> False | Some i \<Rightarrow> i \<noteq> 0)"

definition truthy_str :: "string option \<Rightarrow> bool" where
  "truthy_str v = (case v of None \<Rightarrow> False | Some s \<Rightarrow> s \<noteq> [])"

definition json_of_str :: "string option \<Rightarrow> json" where
  \<comment> \<open>An \<^verbatim>\<open>Optional[str]\<close> as the dynamic value it is.\<close>
  "json_of_str v = (case v of None \<Rightarrow> JNull | Some s \<Rightarrow> JStr s)"

subsection \<open>Deduplicator: \<^verbatim>\<open>_merge_entry_attributes\<close>, \<^verbatim>\<open>_deduplicate_entries\<close> (api.py 368--404)\<close>

definition merge_entry_attributes :: "CurrencyEntry \<Rightarrow> CurrencyEntry \<Rightarrow> CurrencyEntry" where
  \<comment> \<open>The function mutates \<open>target\<close>; the model returns the mutated \<open>target\<close>.\<close>
  "merge_entry_attributes target source =
     (let t1 = (if chaos_value source > chaos_value target
                then target\<lparr>chaos_value := chaos_value source\<rparr> else target);
          t2 = (if divine_value source \<noteq> None
                   \<and> (divine_value t1 = None \<or> the (divine_value source) > the (divine_value t1))
                then t1\<lparr>divine_value := divine_value source\<rparr> else t1);
          t3 = (if sparkline t2 = [] \<and> sparkline source \<noteq> []
                then t2\<lparr>sparkline := sparkline source\<rparr> else t2);
          t4 = (if \<not> truthy_int (trade_count t3) \<and> truthy_int (trade_count source)
                then t3\<lparr>trade_count := trade_count source\<rparr> else t3);
          t5 = (if change_percent t4 = None \<and> change_percent source \<noteq> None
                then t4\<lparr>change_percent := change_percent source\<rparr> else t4);
          t6 = (if \<not> truthy_str (icon_url t5) \<and> truthy_str (icon_url source)
                then t5\<lparr>icon_url := icon_url source\<rparr> else t5)
      in t6)"

definition entry_keys :: "(string list \<Rightarrow> string list) \<Rightarrow> CurrencyEntry \<Rightarrow> string list" where
  \<comment> \<open>\<^verbatim>\<open>_collect_keys(entry.details_id, entry.name)\<close>\<close>
  "entry_keys iter entry = collect_keys iter [json_of_str (details_id entry), JStr (name entry)]"

text \<open>
  \<^verbatim>\<open>key_to_entry\<close> maps a key to a reference to its owner, and every owner is an element
  of \<^verbatim>\<open>ordered\<close>: the model holds the reference as the owner's position in \<open>ordered\<close>,
  and merging into an owner updates the list at that position.
\<close>

fun find_owner :: "(string \<rightharpoonup> nat) \<Rightarrow> string list \<Rightarrow> nat option" where
  \<comment> \<open>\<^verbatim>\<open>for key in keys: owner = key_to_entry.get(key); if owner: break\<close>\<close>
  "find_owner m [] = None"
| "find_owner m (k # ks) = (case m k of Some i \<Rightarrow> Some i | None \<Rightarrow> find_owner m ks)"

fun setdefault_all :: "(string \<rightharpoonup> nat) \<Rightarrow> string list \<Rightarrow> nat \<Rightarrow> (string \<rightharpoonup> nat)" where
  \<comment> \<open>\<^verbatim>\<open>for key in ...: if key: key_to_entry.setdefault(key, owner)\<close>\<close>
  "setdefault_all m [] i = m"
| "setdefault_all m (k # ks) i =
     setdefault_all (if k \<noteq> [] \<and> m k = None then m(k \<mapsto> i) else m) ks i"

definition dedup_step ::
  "(string list \<Rightarrow> string list) \<Rightarrow> CurrencyEntry \<Rightarrow> (string \<rightharpoonup> nat) \<times> CurrencyEntry list
   \<Rightarrow> (string \<rightharpoonup> nat) \<times> CurrencyEntry list" where
  \<comment> \<open>One iteration of \<^verbatim>\<open>for entry in entries\<close>.\<close>
  "dedup_step iter entry st =
     (let key_to_entry = fst st; ordered = snd st;
          keys = entry_keys iter entry;
          primary_key = (if keys \<noteq> [] then hd keys else lower (strip (name entry)));
          keys_or = (if keys \<noteq> [] then keys else [primary_key])
      in case find_owner key_to_entry keys of
           None \<Rightarrow> (setdefault_all key_to_entry keys_or (length ordered), ordered @ [entry])
         | Some i \<Rightarrow> (setdefault_all key_to_entry keys_or i,
                      ordered[i := merge_entry_attributes (ordered ! i) entry]))"

definition deduplicate_entries ::
  "(string list \<Rightarrow> string list) \<Rightarrow> CurrencyEntry list \<Rightarrow> CurrencyEntry list" where
  "deduplicate_entries iter entries = snd (fold (dedup_step iter) entries (Map.empty, []))"

definition new_entry :: "string \<Rightarrow> real \<Rightarrow> string option \<Rightarrow> CurrencyEntry" where
  \<comment> \<open>\<^verbatim>\<open>CurrencyEntry(name=..., chaos_value=..., details_id=...)\<close>: the other fields take
      the defaults of the dataclass.\<close>
  "new_entry n v d =
     \<lparr>name = n, chaos_value = v, divine_value = None, exalt_value = None,
      change_percent = None, sparkline = [], trade_count = None, details_id = d,
      icon_url = None\<rparr>"

subsection \<open>The specification's reading of the Deduplicator\<close>

definition entry_ident :: "CurrencyEntry \<Rightarrow> string \<times> string option" where
  \<comment> \<open>What the key set of an entity is computed from.\<close>
  "entry_ident e = (name e, details_id e)"

definition shares_key :: "(string list \<Rightarrow> string list) \<Rightarrow> CurrencyEntry \<Rightarrow> CurrencyEntry \<Rightarrow> bool" where
  \<comment> \<open>``their key sets intersect''\<close>
  "shares_key iter a b = list_ex (\<lambda>k. k \<in> set (entry_keys iter b)) (entry_keys iter a)"

definition set_iteration :: "(string list \<Rightarrow> string list) \<Rightarrow> bool" where
  \<comment> \<open>Iterating a set visits exactly its elements.\<close>
  "set_iteration iter = (\<forall>xs. set (iter xs) = set xs)"

fun first_owners ::
  "(string list \<Rightarrow> string list) \<Rightarrow> string list \<Rightarrow> CurrencyEntry list \<Rightarrow> CurrencyEntry list" where
  \<comment> \<open>The entities none of whose keys was seen on an earlier entity, in encounter order;
      \<open>seen\<close> are the keys of the entities passed so far.\<close>
  "first_owners iter seen [] = []"
| "first_owners iter seen (e # es) =
     (if list_ex (\<lambda>k. k \<in> set seen) (entry_keys iter e)
      then first_owners iter (entry_keys iter e @ seen) es
      else e # first_owners iter (entry_keys iter e @ seen) es)"

definition first_owned :: "(string \<times> nat) list \<Rightarrow> string list \<Rightarrow> nat option" where
  \<comment> \<open>The owner of the first key of the list that has one; \<open>seen\<close> pairs every key
      carried so far with an owner, and the first pair of a key counts.\<close>
  "first_owned seen ks = first_some (map (map_of seen) ks)"

fun owner_assignment ::
  "(string list \<Rightarrow> string list) \<Rightarrow> (string \<times> nat) list \<Rightarrow> nat \<Rightarrow> CurrencyEntry list
   \<Rightarrow> nat list" where
  \<comment> \<open>For each input entity the position, among the returned entities, of its owner: the
      owner of the first of its keys that an earlier entity carried, else the entity
      itself as the next new owner \<open>n\<close>. Each of its keys that has no owner yet gets that
      owner.\<close>
  "owner_assignment iter seen n [] = []"
| "owner_assignment iter seen n (e # es) =
     (case first_owned seen (entry_keys iter e) of
        Some j \<Rightarrow> j # owner_assignment iter (seen @ map (\<lambda>k. (k, j)) (entry_keys iter e)) n es
      | None \<Rightarrow> n # owner_assignment iter (seen @ map (\<lambda>k. (k, n)) (entry_keys iter e)) (Suc n) es)"

definition group_of :: "nat list \<Rightarrow> CurrencyEntry list \<Rightarrow> nat \<Rightarrow> CurrencyEntry list" where
  \<comment> \<open>The input entities assigned to owner \<open>j\<close>, in encounter order.\<close>
  "group_of a es j = map fst (filter (\<lambda>p. snd p = j) (zip es a))"

fun merge_group :: "CurrencyEntry list \<Rightarrow> CurrencyEntry option" where
  \<comment> \<open>The first entity of a group with the others merged into it one after the other.\<close>
  "merge_group [] = None"
| "merge_group (x # xs) = Some (foldl merge_entry_attributes x xs)"

definition keys_inv ::
  "(string list \<Rightarrow> string list) \<Rightarrow> (string \<rightharpoonup> nat) \<times> CurrencyEntry list \<Rightarrow> bool" where
  \<comment> \<open>The loop invariant of \<^verbatim>\<open>_deduplicate_entries\<close>: every key of an owner is in
      \<^verbatim>\<open>key_to_entry\<close>, and the owners' key lists are pairwise disjoint.\<close>
  "keys_inv iter st =
     ((\<forall>ks \<in> set (map (entry_keys iter) (snd st)). set ks \<subseteq> dom (fst st))
      \<and> sorted_wrt (\<lambda>a b. set a \<inter> set b = {}) (map (entry_keys iter) (snd st)))"

definition ex_a :: CurrencyEntry where
  "ex_a = new_entry ''Alpha'' 1 None"

definition ex_c :: CurrencyEntry where
  "ex_c = new_entry ''Gamma'' 2 None"

definition ex_b :: CurrencyEntry where
  "ex_b = new_entry ''Alpha'' 3 (Some ''gamma'')"

definition ex_owner :: CurrencyEntry where
  "ex_owner = new_entry ''Exalted Orb'' (25 / 2) None"

definition ex_dup :: CurrencyEntry where
  "ex_dup = new_entry ''Exalted Orb'' (25 / 2) (Some ''exalted-orb'')"

subsection \<open>Derived Ratio Calculator: \<^verbatim>\<open>_apply_exalted_values\<close> (api.py 407--428)\<close>

definition lower_details :: "CurrencyEntry \<Rightarrow> string" where
  \<comment> \<open>\<^verbatim>\<open>(entry.details_id or "").lower()\<close>\<close>
  "lower_details entry = lower (case details_id entry of None \<Rightarrow> [] | Some s \<Rightarrow> s)"

fun exalt_scan :: "CurrencyEntry list \<Rightarrow> real list \<Rightarrow> real list" where
  \<comment> \<open>The first loop (lines 410--417), appending to \<open>candidates\<close>.\<close>
  "exalt_scan [] candidates = candidates"
| "exalt_scan (entry # entries) candidates =
     (let name = lower (name entry); details = lower_details entry
      in if contains name ''exalted orb'' \<and> \<not> contains name ''perfect''
            \<and> \<not> contains name ''greater''
         then (if chaos_value entry > 0
               then exalt_scan entries (candidates @ [chaos_value entry])
               else exalt_scan entries candidates)
         else if details = ''exalted-orb'' \<and> chaos_value entry > 0
         then exalt_scan entries (candidates @ [chaos_value entry])
         else exalt_scan entries candidates)"

fun exalt_scan_loose :: "CurrencyEntry list \<Rightarrow> real list \<Rightarrow> real list" where
  \<comment> \<open>The second loop (lines 419--422).\<close>
  "exalt_scan_loose [] candidates = candidates"
| "exalt_scan_loose (entry # entries) candidates =
     (if contains (lower (name entry)) ''exalt'' \<and> chaos_value entry > 0
      then exalt_scan_loose entries (candidates @ [chaos_value entry])
      else exalt_scan_loose entries candidates)"

fun py_min :: "real \<Rightarrow> real list \<Rightarrow> real" where
  \<comment> \<open>\<^verbatim>\<open>min\<close> of a non-empty list, the running minimum first.\<close>
  "py_min m [] = m"
| "py_min m (x # xs) = py_min (if x < m then x else m) xs"

definition exalt_price :: "CurrencyEntry list \<Rightarrow> real option" where
  \<comment> \<open>Lines 408--424: the value of \<open>exalt_price\<close> after the scans.\<close>
  "exalt_price entries =
     (let candidates = exalt_scan entries [];
          candidates = (if candidates = [] then exalt_scan_loose entries candidates
                        else candidates)
      in case candidates of [] \<Rightarrow> None | c # cs \<Rightarrow> Some (py_min c cs))"

definition apply_exalted_values :: "CurrencyEntry list \<Rightarrow> CurrencyEntry list" where
  \<comment> \<open>The function mutates the entries of the list; the model returns the list.\<close>
  "apply_exalted_values entries =
     (let price = exalt_price entries
      in if \<not> truthy_float price \<or> the price \<le> 0 then entries
         else map (\<lambda>entry. entry\<lparr>exalt_value :=
                (if chaos_value entry \<noteq> 0 then Some (chaos_value entry / the price)
                 else None)\<rparr>) entries)"

subsection \<open>Snapshot Assembler: the end of \<^verbatim>\<open>_fetch_poe2_snapshot\<close> (api.py 512--523) and of
  \<^verbatim>\<open>_parse_snapshot_payload\<close> (api.py 1240--1248)\<close>

record CurrencySnapshot =
  league :: string
  entries :: "CurrencyEntry list"
  fetched_at :: real
  source_type :: string

definition sort_by_chaos_desc :: "CurrencyEntry list \<Rightarrow> CurrencyEntry list" where
  \<comment> \<open>\<^verbatim>\<open>entries.sort(key=lambda item: item.chaos_value, reverse=True)\<close>: Python reverses
      the list, sorts it stably in ascending order of the key, and reverses it again.
      This is the sort on keys that are numbers; what it does to keys that include NaN
      is not modelled.\<close>
  "sort_by_chaos_desc es = rev (sort_key chaos_value (rev es))"

definition stamp_divine :: "real option \<Rightarrow> CurrencyEntry list \<Rightarrow> CurrencyEntry list" where
  \<comment> \<open>Lines 513--515.\<close>
  "stamp_divine divine_rate es =
     (if truthy_float divine_rate \<and> the divine_rate > 0
      then map (\<lambda>entry. entry\<lparr>divine_value :=
             (if chaos_value entry \<noteq> 0 then Some (chaos_value entry / the divine_rate)
              else None)\<rparr>) es
      else es)"

definition poe2_snapshot_tail ::
  "(string list \<Rightarrow> string list) \<Rightarrow> string \<Rightarrow> string \<Rightarrow> string \<Rightarrow> real \<Rightarrow> real option
   \<Rightarrow> CurrencyEntry list \<Rightarrow> CurrencySnapshot" where
  \<comment> \<open>Lines 512--523 of \<^verbatim>\<open>_fetch_poe2_snapshot\<close>, from the merged entry list on;
      \<open>now\<close> is \<^verbatim>\<open>time.time()\<close>.\<close>
  "poe2_snapshot_tail iter lg category src now divine_rate es =
     (let es = deduplicate_entries iter es;
          es = stamp_divine divine_rate es;
          es = sort_by_chaos_desc es;
          es = apply_exalted_values es
      in \<lparr>league = lg, entries = es, fetched_at = now,
          source_type = category @ '':'' @ src\<rparr>)"

definition poe_snapshot_tail ::
  "string \<Rightarrow> string \<Rightarrow> string \<Rightarrow> real \<Rightarrow> CurrencyEntry list \<Rightarrow> CurrencySnapshot" where
  \<comment> \<open>Lines 1242--1248 of \<^verbatim>\<open>_parse_snapshot_payload\<close> from the parsed entry list on,
      followed by line 444 of \<^verbatim>\<open>_fetch_poe_snapshot\<close>.\<close>
  "poe_snapshot_tail lg category src now es =
     (let es = sort_by_chaos_desc es;
          snapshot = \<lparr>league = lg, entries = es, fetched_at = now,
                      source_type = category @ '':'' @ src\<rparr>
      in snapshot\<lparr>entries := apply_exalted_values (entries snapshot)\<rparr>)"

subsection \<open>The specification's reading of the Derived Ratio Calculator and of the ordering\<close>

definition has_qualifier :: "CurrencyEntry \<Rightarrow> bool" where
  \<comment> \<open>``names containing 'perfect' or 'greater' qualifiers''\<close>
  "has_qualifier e = (contains (lower (name e)) ''perfect'' \<or> contains (lower (name e)) ''greater'')"

definition exact_match :: "CurrencyEntry \<Rightarrow> bool" where
  \<comment> \<open>``exact-style match on name/external id''\<close>
  "exact_match e = (contains (lower (name e)) ''exalted orb'' \<or> lower_details e = ''exalted-orb'')"

definition loose_match :: "CurrencyEntry \<Rightarrow> bool" where
  \<comment> \<open>``a looser substring match''\<close>
  "loose_match e = contains (lower (name e)) ''exalt''"

definition reference_candidates_spec :: "CurrencyEntry list \<Rightarrow> real list" where
  \<comment> \<open>The claim's candidates: positive values of exact matches, of loose matches only
      when there is no such candidate, names with a qualifier excluded.\<close>
  "reference_candidates_spec es =
     (let exact = [chaos_value e. e \<leftarrow> es, exact_match e \<and> \<not> has_qualifier e \<and> chaos_value e > 0]
      in if exact \<noteq> [] then exact
         else [chaos_value e. e \<leftarrow> es, loose_match e \<and> \<not> has_qualifier e \<and> chaos_value e > 0])"

definition code_candidate :: "CurrencyEntry \<Rightarrow> bool" where
  \<comment> \<open>The candidates of the first scan, as a predicate.\<close>
  "code_candidate e =
     (chaos_value e > 0
      \<and> ((contains (lower (name e)) ''exalted orb'' \<and> \<not> has_qualifier e)
         \<or> lower_details e = ''exalted-orb''))"

definition reference_candidates :: "CurrencyEntry list \<Rightarrow> real list" where
  \<comment> \<open>The candidates as amended: the qualifier excludes a match on the name only, and
      the loose match excludes nothing.\<close>
  "reference_candidates es =
     (let exact = [chaos_value e. e \<leftarrow> es, code_candidate e]
      in if exact \<noteq> [] then exact
         else [chaos_value e. e \<leftarrow> es, loose_match e \<and> chaos_value e > 0])"

definition without_exalt :: "CurrencyEntry \<Rightarrow> CurrencyEntry" where
  \<comment> \<open>An entity but for its premium ratio.\<close>
  "without_exalt e = e\<lparr>exalt_value := None\<rparr>"

definition ex_greater :: "CurrencyEntry list" where
  "ex_greater = [new_entry ''Greater Exalted Orb'' 20 None, new_entry ''Chaos Orb'' 1 None]"

definition ex_market :: "CurrencyEntry list" where
  "ex_market =
     [new_entry ''Exalted Orb'' (25 / 2) (Some ''exalted-orb''),
      new_entry ''Exalted Orb'' 10 None,
      new_entry ''Chaos Orb'' 1 None,
      new_entry ''Unpriced Shard'' 0 None]"

subsection \<open>Network responses\<close>

text \<open>
  One request has three outcomes the source distinguishes: \<^verbatim>\<open>_make_request\<close> raises
  \<^verbatim>\<open>ApiError\<close> (a \<^verbatim>\<open>URLError\<close>), \<^verbatim>\<open>json.loads\<close> raises
  \<^verbatim>\<open>JSONDecodeError\<close>, or the body decodes to a JSON value. The servers are a
  parameter \<open>net\<close>: the response to a request may depend on how many requests were made
  before it.
\<close>

datatype response = Url_error | Garbled | Parsed json

subsection \<open>Bounded detail fetch: \<^verbatim>\<open>_apply_exchange_overview_data\<close> (api.py 731--742),
  \<^verbatim>\<open>_fetch_poe2_exchange_details\<close> (api.py 815--846)\<close>

definition MAX_DETAIL_ENTRIES :: nat where
  "MAX_DETAIL_ENTRIES = 50"

definition detail_ids :: "CurrencyEntry list \<Rightarrow> string list" where
  \<comment> \<open>\<^verbatim>\<open>[entry.details_id for entry in entries[:MAX_DETAIL_ENTRIES] if entry.details_id]\<close>\<close>
  "detail_ids es =
     map (\<lambda>entry. the (details_id entry))
       (filter (\<lambda>entry. truthy_str (details_id entry)) (take MAX_DETAIL_ENTRIES es))"

fun try_detail_endpoints ::
  "(nat \<Rightarrow> nat \<Rightarrow> string \<Rightarrow> response) \<Rightarrow> nat list \<Rightarrow> string \<Rightarrow> (nat \<times> string) list
   \<Rightarrow> pydict option \<times> (nat \<times> string) list" where
  \<comment> \<open>The inner loop over \<^verbatim>\<open>POE2_EXCHANGE_DETAILS_ENDPOINTS\<close> for one id. \<open>reqs\<close> lists
      the requests issued so far, each the endpoint's position and the id.\<close>
  "try_detail_endpoints net [] item_id reqs = (None, reqs)"
| "try_detail_endpoints net (ep # eps) item_id reqs =
     (case net (length reqs) ep item_id of
        Url_error \<Rightarrow> try_detail_endpoints net eps item_id (reqs @ [(ep, item_id)])
      | Garbled \<Rightarrow> try_detail_endpoints net eps item_id (reqs @ [(ep, item_id)])
      | Parsed (JDict d) \<Rightarrow>
          if d = [] then try_detail_endpoints net eps item_id (reqs @ [(ep, item_id)])
          else (case dict_get d ''payload'' of
                  JDict payload_node \<Rightarrow>
                    if payload_node \<noteq> [] then (Some payload_node, reqs @ [(ep, item_id)])
                    else (Some d, reqs @ [(ep, item_id)])
                | _ \<Rightarrow> (Some d, reqs @ [(ep, item_id)]))
      | Parsed _ \<Rightarrow> try_detail_endpoints net eps item_id (reqs @ [(ep, item_id)]))"

fun fetch_details_loop ::
  "(nat \<Rightarrow> nat \<Rightarrow> string \<Rightarrow> response) \<Rightarrow> nat \<Rightarrow> string list \<Rightarrow> (string \<rightharpoonup> pydict)
   \<Rightarrow> (nat \<times> string) list \<Rightarrow> (string \<rightharpoonup> pydict) \<times> (nat \<times> string) list" where
  \<comment> \<open>\<^verbatim>\<open>for index, item_id in enumerate(ids): if index >= MAX_DETAIL_ENTRIES: break\<close>\<close>
  "fetch_details_loop net index [] details reqs = (details, reqs)"
| "fetch_details_loop net index (item_id # ids) details reqs =
     (if index \<ge> MAX_DETAIL_ENTRIES then (details, reqs)
      else case try_detail_endpoints net [0, 1] item_id reqs of
        (None, reqs') \<Rightarrow> fetch_details_loop net (Suc index) ids details reqs'
      | (Some d, reqs') \<Rightarrow> fetch_details_loop net (Suc index) ids (details(item_id \<mapsto> d)) reqs')"

definition fetch_poe2_exchange_details ::
  "(nat \<Rightarrow> nat \<Rightarrow> string \<Rightarrow> response) \<Rightarrow> string list
   \<Rightarrow> (string \<rightharpoonup> pydict) \<times> (nat \<times> string) list" where
  "fetch_poe2_exchange_details net ids = fetch_details_loop net 0 ids Map.empty []"

definition detail_requests ::
  "(nat \<Rightarrow> nat \<Rightarrow> string \<Rightarrow> response) \<Rightarrow> CurrencyEntry list \<Rightarrow> (nat \<times> string) list" where
  \<comment> \<open>The requests lines 731--742 issue for the entry list as it stands there.\<close>
  "detail_requests net es = snd (fetch_poe2_exchange_details net (detail_ids es))"

definition answers :: "response \<Rightarrow> bool" where
  \<comment> \<open>A response that ends the cascade over the endpoint variants: a body that decodes
      to a non-empty object.\<close>
  "answers r = (case r of Parsed (JDict d) \<Rightarrow> d \<noteq> [] | _ \<Rightarrow> False)"

fun lookup_requests ::
  "(nat \<Rightarrow> nat \<Rightarrow> string \<Rightarrow> response) \<Rightarrow> string list \<Rightarrow> (nat \<times> string) list
   \<Rightarrow> (nat \<times> string) list" where
  \<comment> \<open>The requests of the detail phase as amended: for each id in turn one request to
      the first endpoint variant and, unless that one answers, one to the second;
      \<open>reqs\<close> are the requests issued before.\<close>
  "lookup_requests net [] reqs = reqs"
| "lookup_requests net (item_id # ids) reqs =
     lookup_requests net ids
       (if answers (net (length reqs) 0 item_id) then reqs @ [(0, item_id)]
        else reqs @ [(0, item_id), (1, item_id)])"

definition ex_fifty_one :: "CurrencyEntry list" where
  "ex_fifty_one =
     replicate 50 (new_entry ''Scrap'' 1 (Some ''scrap''))
       @ [new_entry ''Mirror'' 1000 (Some ''mirror'')]"

definition net_down :: "nat \<Rightarrow> nat \<Rightarrow> string \<Rightarrow> response" where
  "net_down n ep item_id = Url_error"

subsection \<open>Source Fetchers: \<^verbatim>\<open>_fetch_poe2_items_once\<close>, \<^verbatim>\<open>_fetch_poe2_items_with_aliases\<close>
  (api.py 526--576) and the head of \<^verbatim>\<open>_fetch_poe2_snapshot\<close> (api.py 456--461)\<close>

definition POE2_OVERVIEW_ALIASES :: "(string \<times> string list) list" where
  "POE2_OVERVIEW_ALIASES =
     [(''currency'', [''Currency'', ''currency'']),
      (''fragments'', [''Fragments'', ''fragments'', ''fragment'']),
      (''essences'', [''Essences'', ''Essence'', ''essence'']),
      (''talismans'', [''Talismans'', ''Talisman'', ''talismans'']),
      (''delirium'', [''Delirium'', ''delirium'', ''delirious'']),
      (''abyss'', [''Abyss'', ''abyss'']),
      (''omens'', [''Ritual'', ''Omen'', ''omen'']),
      (''catalysts'', [''Breach'', ''Catalyst'', ''catalysts'']),
      (''soul-cores'', [''Ultimatum'', ''SoulCores'', ''SoulCore'']),
      (''runes'', [''Runes'', ''rune'']),
      (''expeditions'', [''Expedition'', ''expeditions'']),
      (''uncutgems'', [''UncutGems'', ''UncutGem'', ''uncutgems''])]"

definition POE2_FALLBACK_OVERVIEWS :: "string list" where
  "POE2_FALLBACK_OVERVIEWS =
     [''Currency'', ''Fragments'', ''Essence'', ''Talismans'', ''Delirium'', ''Abyss'',
      ''Ritual'', ''Catalyst'', ''Ultimatum'', ''Runes'', ''Expedition'', ''UncutGems'']"

fun fetch_poe2_items_once :: "response \<Rightarrow> exn + json list" where
  \<comment> \<open>The two \<^verbatim>\<open>try\<close> blocks catch \<^verbatim>\<open>ApiError\<close> and \<^verbatim>\<open>JSONDecodeError\<close>; then
      \<^verbatim>\<open>data.get("items")\<close> is called on whatever the body decoded to, and only a
      \<^verbatim>\<open>dict\<close> has a \<^verbatim>\<open>get\<close>.\<close>
  "fetch_poe2_items_once Url_error = Inr []"
| "fetch_poe2_items_once Garbled = Inr []"
| "fetch_poe2_items_once (Parsed (JDict data)) =
     (case dict_get data ''items'' of
        JList items \<Rightarrow> Inr items
      | _ \<Rightarrow> (case dict_get data ''lines'' of
                JList lines \<Rightarrow> Inr lines
              | _ \<Rightarrow> (case dict_get data ''entries'' of
                        JList ents \<Rightarrow> Inr ents
                      | _ \<Rightarrow> Inr [])))"
| "fetch_poe2_items_once (Parsed _) = Inl AttributeError"

fun items_alias_loop ::
  "(nat \<Rightarrow> string \<Rightarrow> response) \<Rightarrow> string list \<Rightarrow> string list \<Rightarrow> nat \<Rightarrow> exn + json list" where
  \<comment> \<open>\<^verbatim>\<open>for alias in aliases + POE2_FALLBACK_OVERVIEWS\<close>, with the set \<open>tried\<close> and the
      number \<open>n\<close> of requests made so far.\<close>
  "items_alias_loop net [] tried n = Inr []"
| "items_alias_loop net (alias # rest) tried n =
     (if alias = [] \<or> alias \<in> set tried then items_alias_loop net rest tried n
      else case fetch_poe2_items_once (net n alias) of
          Inl e \<Rightarrow> Inl e
        | Inr items \<Rightarrow>
            if items \<noteq> [] then Inr items
            else items_alias_loop net rest (alias # tried) (Suc n))"

definition fetch_poe2_items_with_aliases ::
  "(nat \<Rightarrow> string \<Rightarrow> response) \<Rightarrow> string \<Rightarrow> exn + json list" where
  "fetch_poe2_items_with_aliases net category =
     (let normalized = lower category;
          aliases = (case map_of POE2_OVERVIEW_ALIASES normalized of
                       Some a \<Rightarrow> a | None \<Rightarrow> [category])
      in items_alias_loop net (aliases @ POE2_FALLBACK_OVERVIEWS) [] 0)"

definition no_data_message :: "string \<Rightarrow> string \<Rightarrow> string" where
  \<comment> \<open>\<^verbatim>\<open>f"No data returned for category '{category}' in league '{league}'."\<close>\<close>
  "no_data_message category lg =
     ''No data returned for category '' @ [CHR 0x27] @ category @ [CHR 0x27]
       @ '' in league '' @ [CHR 0x27] @ lg @ [CHR 0x27] @ ''.''"

definition poe2_snapshot_items ::
  "(nat \<Rightarrow> string \<Rightarrow> response) \<Rightarrow> string \<Rightarrow> string \<Rightarrow> json list \<Rightarrow> exn + json list" where
  \<comment> \<open>Lines 456--461: \<open>exchange_items\<close> are the rows \<^verbatim>\<open>_prepare_exchange_rows\<close>
      returned for the exchange overview.\<close>
  "poe2_snapshot_items net category lg exchange_items =
     (if exchange_items \<noteq> [] then Inr exchange_items
      else bind_exn (fetch_poe2_items_with_aliases net category) (\<lambda>items.
        if items = [] then Inl (ApiError (no_data_message category lg)) else Inr items))"

definition net_array :: "nat \<Rightarrow> string \<Rightarrow> response" where
  \<comment> \<open>A server that answers every alias with the body \<^verbatim>\<open>[]\<close>.\<close>
  "net_array n alias = Parsed (JList [])"

definition net_second :: "nat \<Rightarrow> string \<Rightarrow> response" where
  \<comment> \<open>A server that fails on the alias Ritual and has three items under Omen.\<close>
  "net_second n alias =
     (if alias = ''Omen''
      then Parsed (JDict [(''items'', JList [JDict [], JDict [], JDict []])])
      else Url_error)"

fun well_shaped :: "response \<Rightarrow> bool" where
  \<comment> \<open>A response whose body, when it decodes, is a JSON object.\<close>
  "well_shaped Url_error = True"
| "well_shaped Garbled = True"
| "well_shaped (Parsed (JDict d)) = True"
| "well_shaped (Parsed _) = False"

subsection \<open>Unmatched overview lines: \<^verbatim>\<open>_extract_sparkline\<close>, \<^verbatim>\<open>_extract_trade_count\<close>,
  \<^verbatim>\<open>_update_entry_from_overview\<close>, \<^verbatim>\<open>_add_unmatched_overview_entries\<close>
  (api.py 1015--1100, 1337--1362)\<close>




























section \<open>Theorems\<close>

subsection \<open>Value Extractor\<close>

lemma in_range_extract: "in_float_range v \<Longrightarrow> \<exists>x. extract_float pf v = Inr x"
  by (cases v) (simp_all add: float_of_int_def bind_exn_def)

lemma in_range_field:
  "in_float_range (dict_get d k) \<Longrightarrow> get_float pf d k = Inr (field_value pf d k)"
  using in_range_extract [of "dict_get d k" pf] by (auto simp: field_value_def get_float_def)

lemma fields_in_range_field:
  "fields_in_range d ks \<Longrightarrow> k \<in> set ks \<Longrightarrow> get_float pf d k = Inr (field_value pf d k)"
  by (simp add: fields_in_range_def list_all_iff in_range_field)

lemma extract_float_overflow: "extract_float pf (JInt (2 ^ 1024)) = Inl OverflowError"
  by (simp add: float_of_int_def DBL_OVERFLOW_def bind_exn_def)

text \<open>
  C9 (as stated, refuted). The claim reads: for every JSON value the extractor returns the
  numeric value when the input is a number or a parseable string, signals absence for
  every other input, and never raises. The JSON value \<^verbatim>\<open>true\<close> is not a number, yet
  \<^verbatim>\<open>isinstance(True, (int, float))\<close> holds and the extractor returns \<open>1.0\<close>; and on the
  integer \<open>2 ^ 1024\<close> the call \<^verbatim>\<open>float(value)\<close> raises \<^verbatim>\<open>OverflowError\<close>, which the
  function does not catch.
\<close>

theorem extract_float_bool_counterexample:
  "extract_float sample_pf (JBool True) = Inr (Some 1)
   \<and> numeric_value sample_pf (JBool True) = None
   \<and> extract_float sample_pf (JInt (2 ^ 1024)) = Inl OverflowError"
  by (simp add: float_of_int_def DBL_OVERFLOW_def bind_exn_def)

text \<open>
  C9 (amended). For every JSON value other than an integer beyond the range of a double,
  the extractor returns without raising: the number for an integer or a float, \<open>1.0\<close> or
  \<open>0.0\<close> for a boolean, the parsed number for a string that \<^verbatim>\<open>float()\<close> parses, and
  absence for every other value, a malformed string included.
\<close>

theorem extract_float_total:
  "in_float_range v \<Longrightarrow>
   extract_float pf v =
     Inr (case v of JBool b \<Rightarrow> Some (if b then 1 else 0) | _ \<Rightarrow> numeric_value pf v)"
  by (cases v) (simp_all add: float_of_int_def bind_exn_def)

theorem extract_float_total_witness:
  "in_float_range (JStr ''12.5'')
   \<and> extract_float sample_pf (JStr ''12.5'') = Inr (Some (25 / 2))
   \<and> extract_float sample_pf (JStr ''1x'') = Inr None"
  using extract_float_total [of "JStr ''12.5''" sample_pf]
    extract_float_total [of "JStr ''1x''" sample_pf]
  by (simp add: sample_pf_def)

subsection \<open>Chaos-Equivalent Resolver\<close>

lemma or_chain_first_some:
  "Some 0 \<notin> set vs \<Longrightarrow> or_chain (map Inr vs) = Inr (first_some vs)"
proof (induction vs)
  case Nil
  then show ?case by simp
next
  case (Cons v vs)
  show ?case
  proof (cases vs)
    case Nil
    then show ?thesis by (cases v) simp_all
  next
    case (Cons w ws)
    with Cons.prems Cons.IH show ?thesis
      by (cases v) (auto simp: truthy_float_def)
  qed
qed

lemma direct_stage:
  assumes "fields_in_range line direct_fields"
    and "\<forall>k\<in>set direct_fields. field_value pf line k \<noteq> Some 0"
  shows "or_chain (map (get_float pf line) direct_fields) =
         Inr (first_some (map (field_value pf line) direct_fields))"
proof -
  have a: "map (get_float pf line) direct_fields =
           map Inr (map (field_value pf line) direct_fields)"
    using assms(1) by (simp add: fields_in_range_field)
  have b: "Some 0 \<notin> set (map (field_value pf line) direct_fields)"
    using assms(2) by auto
  show ?thesis
    unfolding a by (rule or_chain_first_some [OF b])
qed

lemma first_some_single: "first_some [x] = x"
  by (cases x) simp_all

lemma rate_stage:
  assumes "fields_in_range r rate_fields" and "rate \<noteq> Some 0"
  shows "rate_cascade pf r rate = Inr (first_some
           [field_value pf r ''chaosPerItem'',
            reciprocal_positive (field_value pf r ''chaos''),
            field_value pf r ''chaosValue'',
            times_rate (field_value pf r ''divine'') rate])"
proof -
  have f: "get_float pf r ''chaosPerItem'' = Inr (field_value pf r ''chaosPerItem'')"
    "get_float pf r ''chaos'' = Inr (field_value pf r ''chaos'')"
    "get_float pf r ''chaosValue'' = Inr (field_value pf r ''chaosValue'')"
    "get_float pf r ''divine'' = Inr (field_value pf r ''divine'')"
    using assms(1) by (simp_all add: fields_in_range_field rate_fields_def)
  show ?thesis
    using assms(2)
    by (cases "field_value pf r ''chaosPerItem''"; cases "field_value pf r ''chaos''";
        cases "field_value pf r ''chaosValue''"; cases "field_value pf r ''divine''"; cases rate)
       (simp_all add: rate_cascade_def f bind_exn_def reciprocal_positive_def times_rate_def
          truthy_float_def)
qed

lemma cascade_tail_first_some:
  "rate \<noteq> Some 0 \<Longrightarrow>
   cascade_tail d p v rate (Inr n) =
     Inr (first_some [d, times_rate p rate, times_rate v rate, n])"
  by (cases d; cases p; cases v; cases rate; cases n)
     (simp_all add: cascade_tail_def bind_exn_def times_rate_def truthy_float_def)

lemma small_lt_DBL: "i \<le> 1000000 \<Longrightarrow> i < DBL_OVERFLOW"
proof -
  have "(1000000::int) < DBL_OVERFLOW" by (simp add: DBL_OVERFLOW_def)
  then show "i \<le> 1000000 \<Longrightarrow> i < DBL_OVERFLOW" by simp
qed

lemma compute_chaos_zero_direct_skipped:
  "compute_chaos_from_line sample_pf
       [(''chaosEquivalent'', JInt 0), (''primaryValue'', JInt 2)] (Some 3) = Inr (Some 6)
   \<and> compute_chaos_from_line sample_pf [(''secondary'', JInt 0)] (Some 3) = Inr (Some 0)"
  by (simp add: compute_chaos_from_line_def direct_fields_def get_float_def dict_get_def
      bind_exn_def float_of_int_def small_lt_DBL truthy_float_def)

text \<open>
  C1 (as stated, refuted). The claim reads: the stages of section 4.4 are tried in exactly
  the stated order and the first success wins. The fourth stage of section 4.4 takes, after
  the per-item rate, the reciprocal of the rate object's items-per-base-unit field,
  ``guarded against zero''. For the line \<^verbatim>\<open>{"rate": {"chaos": -4, "chaosValue": 7}}\<close> that
  field is other than zero and section 4.4 resolves to its reciprocal \<open>-1/4\<close>; the
  resolver guards the reciprocal with \<^verbatim>\<open>items_per_chaos > 0\<close>, passes on to the next
  alternative and returns \<open>7\<close>.
\<close>

theorem compute_chaos_negative_reciprocal_counterexample:
  "compute_chaos_from_line sample_pf
       [(''rate'', JDict [(''chaos'', JInt (- 4)), (''chaosValue'', JInt 7)])] None
       = Inr (Some 7)
   \<and> resolveValue_spec sample_pf
       [(''rate'', JDict [(''chaos'', JInt (- 4)), (''chaosValue'', JInt 7)])] None
       = Some (- (1 / 4))"
  by (simp add: compute_chaos_from_line_def rate_cascade_def resolveValue_spec_def
      resolve_cascade_def direct_fields_def field_value_def get_float_def dict_get_def
      bind_exn_def float_of_int_def small_lt_DBL truthy_float_def times_rate_def
      reciprocal_nonzero_def)

text \<open>
  C1 (amended). For every line and every conversion rate the resolver returns the cascade
  of section 4.4 in the stated order, first success wins, with the reciprocal of the rate
  object's items-per-base-unit field taken only when that field is positive: the first
  present direct field in the fixed order; else primaryValue times the rate; else
  volumePrimaryValue times the rate; else, of the nested rate object, the per-item rate,
  else the reciprocal of a positive items-per-base-unit field, else the rate object's
  base-unit field, else its premium-unit rate times the rate; else absence. In particular
  a present direct field wins over primaryValue times the rate. This is stated for the
  lines none of whose direct fields is zero and the rates other than zero (a zero direct
  field that is not the last of the five is passed over like an absent one, as is a zero
  rate: \<open>compute_chaos_zero_direct_skipped\<close>), no field the cascade reads holding an
  integer beyond the range of a double.
\<close>

theorem compute_chaos_cascade_order:
  assumes "fields_in_range line cascade_fields"
    and "case dict_get line ''rate'' of JDict r \<Rightarrow> fields_in_range r rate_fields | _ \<Rightarrow> True"
    and "\<forall>k\<in>set direct_fields. field_value pf line k \<noteq> Some 0"
    and "rate \<noteq> Some 0"
  shows "compute_chaos_from_line pf line rate = Inr (resolveValue_amended pf line rate)"
proof -
  define nested where "nested =
    (case dict_get line ''rate'' of
       JDict r \<Rightarrow> first_some
         [field_value pf r ''chaosPerItem'',
          reciprocal_positive (field_value pf r ''chaos''),
          field_value pf r ''chaosValue'',
          times_rate (field_value pf r ''divine'') rate]
     | _ \<Rightarrow> None)"
  have nested: "(case dict_get line ''rate'' of
        JDict r \<Rightarrow> rate_cascade pf r rate | _ \<Rightarrow> Inr None) = Inr nested"
    using assms(2,4) unfolding nested_def
    by (cases "dict_get line ''rate''") (simp_all add: rate_stage)
  have d: "fields_in_range line direct_fields"
    using assms(1) by (simp add: fields_in_range_def cascade_fields_def)
  have f: "get_float pf line ''primaryValue'' = Inr (field_value pf line ''primaryValue'')"
    "get_float pf line ''volumePrimaryValue'' = Inr (field_value pf line ''volumePrimaryValue'')"
    using assms(1) by (simp_all add: fields_in_range_field cascade_fields_def)
  have "compute_chaos_from_line pf line rate =
        cascade_tail (first_some (map (field_value pf line) direct_fields))
          (field_value pf line ''primaryValue'') (field_value pf line ''volumePrimaryValue'')
          rate (Inr nested)"
    unfolding compute_chaos_from_line_def cascade_tail_def
      direct_stage [OF d assms(3)] f nested ..
  also have "\<dots> = Inr (first_some
      [first_some (map (field_value pf line) direct_fields),
       times_rate (field_value pf line ''primaryValue'') rate,
       times_rate (field_value pf line ''volumePrimaryValue'') rate, nested])"
    by (rule cascade_tail_first_some [OF assms(4)])
  finally show ?thesis
    unfolding resolveValue_amended_def resolve_cascade_def nested_def .
qed

theorem compute_chaos_cascade_order_witness:
  "fields_in_range [(''chaosValue'', JInt 180), (''primaryValue'', JInt 2),
       (''unread'', JInt (2 ^ 1024))] cascade_fields
   \<and> compute_chaos_from_line sample_pf
       [(''chaosValue'', JInt 180), (''primaryValue'', JInt 2), (''unread'', JInt (2 ^ 1024))]
       (Some 3) = Inr (Some 180)
   \<and> compute_chaos_from_line sample_pf
       [(''primaryValue'', JInt 2), (''volumePrimaryValue'', JInt 5),
        (''rate'', JDict [(''chaosPerItem'', JInt 9)])] (Some 3) = Inr (Some 6)
   \<and> compute_chaos_from_line sample_pf
       [(''rate'', JDict [(''chaos'', JInt 4), (''chaosValue'', JInt 7)])] None
       = Inr (Some (1 / 4))"
  using
    compute_chaos_cascade_order
      [of "[(''chaosValue'', JInt 180), (''primaryValue'', JInt 2),
            (''unread'', JInt (2 ^ 1024))]" sample_pf "Some 3"]
    compute_chaos_cascade_order
      [of "[(''primaryValue'', JInt 2), (''volumePrimaryValue'', JInt 5),
            (''rate'', JDict [(''chaosPerItem'', JInt 9)])]" sample_pf "Some 3"]
    compute_chaos_cascade_order
      [of "[(''rate'', JDict [(''chaos'', JInt 4), (''chaosValue'', JInt 7)])]" sample_pf None]
  by (simp add: fields_in_range_def cascade_fields_def rate_fields_def small_lt_DBL
      float_of_int_def dict_get_def direct_fields_def field_value_def get_float_def
      bind_exn_def resolveValue_amended_def resolve_cascade_def times_rate_def
      reciprocal_positive_def)

subsection \<open>Deduplicator\<close>

lemma merge_name [simp]: "name (merge_entry_attributes t s) = name t"
  by (simp add: merge_entry_attributes_def Let_def)

lemma merge_details_id [simp]: "details_id (merge_entry_attributes t s) = details_id t"
  by (simp add: merge_entry_attributes_def Let_def)

lemma merge_entry_keys [simp]: "entry_keys iter (merge_entry_attributes t s) = entry_keys iter t"
  by (simp add: entry_keys_def)

lemma merge_ident [simp]: "entry_ident (merge_entry_attributes t s) = entry_ident t"
  by (simp add: entry_ident_def)

lemma find_owner_None: "find_owner m ks = None \<longleftrightarrow> (\<forall>k\<in>set ks. k \<notin> dom m)"
  by (induction ks) (auto split: option.splits)

lemma find_owner_Some:
  "\<exists>k\<in>set ks. k \<in> dom m \<Longrightarrow> \<forall>k v. m k = Some v \<longrightarrow> v = i \<Longrightarrow> find_owner m ks = Some i"
  by (induction ks) (auto split: option.splits)

lemma dom_setdefault_all: "dom (setdefault_all m ks i) = dom m \<union> {k \<in> set ks. k \<noteq> []}"
  by (induction ks arbitrary: m) (auto split: if_splits)

lemma find_owner_empty: "find_owner Map.empty ks = None"
  by (induction ks) simp_all

lemma ran_setdefault_all:
  "setdefault_all m ks i k = Some v \<Longrightarrow> v \<noteq> i \<Longrightarrow> m k = Some v"
proof (induction ks arbitrary: m)
  case Nil
  then show ?case by simp
next
  case (Cons a ks)
  let ?m = "if a \<noteq> [] \<and> m a = None then m(a \<mapsto> i) else m"
  from Cons.prems have "setdefault_all ?m ks i k = Some v" by simp
  then have "?m k = Some v" using Cons.prems(2) by (rule Cons.IH)
  with Cons.prems(2) show ?case by (auto split: if_splits)
qed

lemma entry_keys_nonempty: "k \<in> set (entry_keys iter e) \<Longrightarrow> k \<noteq> []"
  by (cases "details_id e") (auto simp: entry_keys_def collect_keys_def json_of_str_def)

lemma entry_keys_filter: "{k \<in> set (entry_keys iter e). k \<noteq> []} = set (entry_keys iter e)"
  using entry_keys_nonempty by blast

lemma entry_keys_Nil_norm:
  assumes "set_iteration iter" and "entry_keys iter e = []"
  shows "lower (strip (name e)) = []"
proof (rule ccontr)
  assume ne: "lower (strip (name e)) \<noteq> []"
  have "norm_key (name e) \<in> set (iter [norm_key (name e), slug_key (name e), nopunct_key (name e)])"
    using assms(1) by (simp add: set_iteration_def)
  with ne have "norm_key (name e) \<in> set (key_variants iter (JStr (name e)))"
    by (simp add: norm_key_def)
  then have "norm_key (name e) \<in> set (entry_keys iter e)"
    by (simp add: entry_keys_def collect_keys_def)
  with assms(2) show False by simp
qed

lemma dom_dedup_step:
  assumes "set_iteration iter"
  shows "dom (fst (dedup_step iter e (m, ordered))) = dom m \<union> set (entry_keys iter e)"
proof (cases "entry_keys iter e = []")
  case True
  with entry_keys_Nil_norm [OF assms True] show ?thesis
    by (simp add: dedup_step_def Let_def)
next
  case False
  then show ?thesis
    by (simp add: dedup_step_def Let_def dom_setdefault_all entry_keys_filter
        split: option.splits)
qed

lemma keys_dom_dedup_step:
  "set (entry_keys iter e) \<subseteq> dom (fst (dedup_step iter e (m, ordered)))"
proof (cases "entry_keys iter e = []")
  case True
  then show ?thesis by simp
next
  case False
  then show ?thesis
    by (simp add: dedup_step_def Let_def dom_setdefault_all entry_keys_filter
        split: option.splits)
qed

lemma dom_mono_dedup_step: "dom m \<subseteq> dom (fst (dedup_step iter e (m, ordered)))"
  by (auto simp: dedup_step_def Let_def dom_setdefault_all split: option.splits)

lemma snd_dedup_step:
  "snd (dedup_step iter e (m, ordered)) =
     (case find_owner m (entry_keys iter e) of
        None \<Rightarrow> ordered @ [e]
      | Some i \<Rightarrow> ordered[i := merge_entry_attributes (ordered ! i) e])"
  by (simp add: dedup_step_def Let_def split: option.splits)

lemma map_keys_update:
  "map (entry_keys iter) (xs[i := merge_entry_attributes (xs ! i) e]) = map (entry_keys iter) xs"
  by (cases "i < length xs")
     (simp_all add: map_update list_update_same_conv list_update_beyond)

lemma map_ident_update:
  "map entry_ident (xs[i := merge_entry_attributes (xs ! i) e]) = map entry_ident xs"
  by (cases "i < length xs")
     (simp_all add: map_update list_update_same_conv list_update_beyond)

lemma keys_inv_step:
  assumes "keys_inv iter st"
  shows "keys_inv iter (dedup_step iter e st)"
proof -
  obtain m ordered where st: "st = (m, ordered)" by (cases st)
  let ?st' = "dedup_step iter e (m, ordered)"
  have sub: "dom m \<subseteq> dom (fst ?st')" by (rule dom_mono_dedup_step)
  have own: "set (entry_keys iter e) \<subseteq> dom (fst ?st')" by (rule keys_dom_dedup_step)
  from assms st have old: "\<forall>ks \<in> set (map (entry_keys iter) ordered). set ks \<subseteq> dom m"
    and dis: "sorted_wrt (\<lambda>a b. set a \<inter> set b = {}) (map (entry_keys iter) ordered)"
    by (simp_all add: keys_inv_def)
  show ?thesis
  proof (cases "find_owner m (entry_keys iter e)")
    case None
    then have fresh: "\<forall>k\<in>set (entry_keys iter e). k \<notin> dom m" by (simp add: find_owner_None)
    have snd: "snd ?st' = ordered @ [e]" using None by (simp add: snd_dedup_step)
    have "\<forall>ks \<in> set (map (entry_keys iter) ordered). set ks \<inter> set (entry_keys iter e) = {}"
      using old fresh by blast
    with dis have "sorted_wrt (\<lambda>a b. set a \<inter> set b = {}) (map (entry_keys iter) (ordered @ [e]))"
      by (simp add: sorted_wrt_append)
    moreover have "\<forall>ks \<in> set (map (entry_keys iter) (ordered @ [e])). set ks \<subseteq> dom (fst ?st')"
    proof
      fix ks
      assume "ks \<in> set (map (entry_keys iter) (ordered @ [e]))"
      then consider "ks \<in> set (map (entry_keys iter) ordered)" | "ks = entry_keys iter e"
        by auto
      then show "set ks \<subseteq> dom (fst ?st')"
        using old sub own by cases blast+
    qed
    ultimately show ?thesis unfolding keys_inv_def st snd by blast
  next
    case (Some i)
    have snd: "map (entry_keys iter) (snd ?st') = map (entry_keys iter) ordered"
      using Some by (simp add: snd_dedup_step map_keys_update del: map_update)
    have "\<forall>ks \<in> set (map (entry_keys iter) ordered). set ks \<subseteq> dom (fst ?st')"
      using old sub by blast
    with dis show ?thesis unfolding keys_inv_def st snd by blast
  qed
qed

lemma keys_inv_fold: "keys_inv iter st \<Longrightarrow> keys_inv iter (fold (dedup_step iter) es st)"
  by (induction es arbitrary: st) (simp_all add: keys_inv_step)

lemma dedup_disjoint:
  "sorted_wrt (\<lambda>a b. set a \<inter> set b = {}) (map (entry_keys iter) (deduplicate_entries iter es))"
proof -
  have "keys_inv iter (Map.empty, [])" by (simp add: keys_inv_def)
  then have "keys_inv iter (fold (dedup_step iter) es (Map.empty, []))" by (rule keys_inv_fold)
  then show ?thesis by (simp add: keys_inv_def deduplicate_entries_def)
qed

lemma fold_first_owners:
  assumes "set_iteration iter" and "dom m = set seen"
  shows "map entry_ident (snd (fold (dedup_step iter) es (m, ordered))) =
         map entry_ident ordered @ map entry_ident (first_owners iter seen es)"
  using assms(2)
proof (induction es arbitrary: m ordered seen)
  case Nil
  then show ?case by simp
next
  case (Cons e es)
  obtain m' ordered' where st': "dedup_step iter e (m, ordered) = (m', ordered')"
    by (cases "dedup_step iter e (m, ordered)")
  have "dom m' = dom m \<union> set (entry_keys iter e)"
    using dom_dedup_step [OF assms(1), of e m ordered] st' by simp
  with Cons.prems have dom': "dom m' = set (entry_keys iter e @ seen)" by auto
  have IH: "map entry_ident (snd (fold (dedup_step iter) es (m', ordered'))) =
         map entry_ident ordered' @ map entry_ident (first_owners iter (entry_keys iter e @ seen) es)"
    by (rule Cons.IH [OF dom'])
  have o': "ordered' = snd (dedup_step iter e (m, ordered))" using st' by simp
  show ?case
  proof (cases "find_owner m (entry_keys iter e)")
    case None
    then have "\<not> list_ex (\<lambda>k. k \<in> set seen) (entry_keys iter e)"
      using Cons.prems by (simp add: find_owner_None list_ex_iff)
    moreover have "ordered' = ordered @ [e]" using None o' by (simp add: snd_dedup_step)
    ultimately show ?thesis using IH st' by simp
  next
    case (Some i)
    then have "list_ex (\<lambda>k. k \<in> set seen) (entry_keys iter e)"
      using Cons.prems find_owner_None [of m "entry_keys iter e"] by (auto simp: list_ex_iff)
    moreover have "map entry_ident ordered' = map entry_ident ordered"
      using Some o' by (simp add: snd_dedup_step map_ident_update del: map_update)
    ultimately show ?thesis using IH st' by simp
  qed
qed

lemma dedup_pair:
  assumes "shares_key iter t s"
  shows "deduplicate_entries iter [t, s] = [merge_entry_attributes t s]"
proof -
  from assms obtain k where k: "k \<in> set (entry_keys iter t)" "k \<in> set (entry_keys iter s)"
    by (auto simp: shares_key_def list_ex_iff)
  then have ne: "entry_keys iter t \<noteq> []" by auto
  define m1 where "m1 = setdefault_all Map.empty (entry_keys iter t) 0"
  have st1: "dedup_step iter t (Map.empty, []) = (m1, [t])"
    using ne by (simp add: dedup_step_def Let_def m1_def find_owner_empty)
  have "k \<in> dom m1"
    using k(1) by (simp add: m1_def dom_setdefault_all entry_keys_filter)
  moreover have "\<forall>k v. m1 k = Some v \<longrightarrow> v = 0"
    using ran_setdefault_all [of Map.empty "entry_keys iter t" 0] by (fastforce simp: m1_def)
  ultimately have "find_owner m1 (entry_keys iter s) = Some 0"
    using k(2) by (intro find_owner_Some) auto
  then have "snd (dedup_step iter s (m1, [t])) = [merge_entry_attributes t s]"
    by (simp add: snd_dedup_step)
  then show ?thesis
    by (simp add: deduplicate_entries_def st1)
qed

lemma find_owner_first_owned: "find_owner (map_of seen) ks = first_owned seen ks"
  unfolding first_owned_def
  by (induction ks) (simp_all split: option.splits)

lemma first_owned_bound: "first_owned seen ks = Some j \<Longrightarrow> j \<in> snd ` set seen"
  unfolding first_owned_def
proof (induction ks)
  case Nil
  then show ?case by simp
next
  case (Cons k ks)
  show ?case
  proof (cases "map_of seen k")
    case None
    with Cons show ?thesis by simp
  next
    case (Some i)
    with Cons.prems have "i = j" by simp
    with Some have "(k, j) \<in> set seen" by (simp add: map_of_SomeD)
    then show ?thesis by force
  qed
qed

lemma map_of_snoc:
  "map_of (seen @ [(k, i)]) = (if map_of seen k = None then (map_of seen)(k \<mapsto> i) else map_of seen)"
  by (auto simp: fun_eq_iff map_add_def split: option.splits)

lemma setdefault_map_of:
  "\<forall>k\<in>set ks. k \<noteq> [] \<Longrightarrow>
   setdefault_all (map_of seen) ks i = map_of (seen @ map (\<lambda>k. (k, i)) ks)"
proof (induction ks arbitrary: seen)
  case Nil
  then show ?case by simp
next
  case (Cons k ks)
  then have k: "k \<noteq> []" and ks: "\<forall>k\<in>set ks. k \<noteq> []" by simp_all
  have "setdefault_all (map_of seen) (k # ks) i = setdefault_all (map_of (seen @ [(k, i)])) ks i"
    using k by (simp only: setdefault_all.simps map_of_snoc) simp
  also have "\<dots> = map_of ((seen @ [(k, i)]) @ map (\<lambda>k. (k, i)) ks)"
    by (rule Cons.IH [OF ks])
  finally show ?case by simp
qed

lemma dedup_step_assignment:
  assumes "set_iteration iter"
  shows "dedup_step iter e (map_of seen, ordered) =
     (case first_owned seen (entry_keys iter e) of
        None \<Rightarrow> (map_of (seen @ map (\<lambda>k. (k, length ordered)) (entry_keys iter e)),
                  ordered @ [e])
      | Some i \<Rightarrow> (map_of (seen @ map (\<lambda>k. (k, i)) (entry_keys iter e)),
                   ordered[i := merge_entry_attributes (ordered ! i) e]))"
proof (cases "entry_keys iter e = []")
  case True
  with entry_keys_Nil_norm [OF assms True] show ?thesis
    by (simp add: dedup_step_def Let_def first_owned_def)
next
  case False
  have ne: "\<forall>k\<in>set (entry_keys iter e). k \<noteq> []"
    using entry_keys_nonempty by blast
  show ?thesis
    using False
    by (simp add: dedup_step_def Let_def find_owner_first_owned setdefault_map_of [OF ne]
        split: option.splits)
qed

lemma group_of_Cons:
  "group_of (i # a) (e # es) j = (if i = j then e # group_of a es j else group_of a es j)"
  by (simp add: group_of_def)

lemma group_of_Nil: "group_of [] [] j = []"
  by (simp add: group_of_def)

lemma fold_groups:
  assumes "set_iteration iter"
  shows "snd ` set seen \<subseteq> {..<length ordered} \<Longrightarrow>
    length ordered \<le> length (snd (fold (dedup_step iter) es (map_of seen, ordered)))
    \<and> (\<forall>j < length (snd (fold (dedup_step iter) es (map_of seen, ordered))).
          Some (snd (fold (dedup_step iter) es (map_of seen, ordered)) ! j) =
            (if j < length ordered
             then Some (foldl merge_entry_attributes (ordered ! j)
                    (group_of (owner_assignment iter seen (length ordered) es) es j))
             else merge_group (group_of (owner_assignment iter seen (length ordered) es) es j)))"
proof (induction es arbitrary: seen ordered)
  case Nil
  then show ?case by (simp add: group_of_Nil)
next
  case (Cons e es)
  let ?ks = "entry_keys iter e"
  let ?n = "length ordered"
  show ?case
  proof (cases "first_owned seen ?ks")
    case None
    let ?seen1 = "seen @ map (\<lambda>k. (k, ?n)) ?ks"
    let ?ord1 = "ordered @ [e]"
    let ?out = "snd (fold (dedup_step iter) es (map_of ?seen1, ?ord1))"
    let ?a1 = "owner_assignment iter ?seen1 (Suc ?n) es"
    have step: "dedup_step iter e (map_of seen, ordered) = (map_of ?seen1, ?ord1)"
      using None by (simp add: dedup_step_assignment [OF assms])
    have inv: "snd ` set ?seen1 \<subseteq> {..<length ?ord1}"
      using Cons.prems by (auto simp: less_Suc_eq)
    from Cons.IH [OF inv] have len: "Suc ?n \<le> length ?out"
      and nth: "\<And>j. j < length ?out \<Longrightarrow> Some (?out ! j) =
            (if j < Suc ?n
             then Some (foldl merge_entry_attributes (?ord1 ! j) (group_of ?a1 es j))
             else merge_group (group_of ?a1 es j))"
      by simp_all
    have a: "owner_assignment iter seen ?n (e # es) = ?n # ?a1"
      using None by simp
    have "Some (?out ! j) =
            (if j < ?n
             then Some (foldl merge_entry_attributes (ordered ! j) (group_of (?n # ?a1) (e # es) j))
             else merge_group (group_of (?n # ?a1) (e # es) j))" if "j < length ?out" for j
      using nth [OF that] by (auto simp: group_of_Cons nth_append less_Suc_eq)
    with len show ?thesis
      unfolding a by (simp add: step)
  next
    case (Some i)
    let ?seen1 = "seen @ map (\<lambda>k. (k, i)) ?ks"
    let ?ord1 = "ordered[i := merge_entry_attributes (ordered ! i) e]"
    let ?out = "snd (fold (dedup_step iter) es (map_of ?seen1, ?ord1))"
    let ?a1 = "owner_assignment iter ?seen1 ?n es"
    have i: "i < ?n"
      using first_owned_bound [OF Some] Cons.prems by auto
    have step: "dedup_step iter e (map_of seen, ordered) = (map_of ?seen1, ?ord1)"
      using Some by (simp add: dedup_step_assignment [OF assms])
    have inv: "snd ` set ?seen1 \<subseteq> {..<length ?ord1}"
      using Cons.prems i by auto
    from Cons.IH [OF inv] have len: "?n \<le> length ?out"
      and nth: "\<And>j. j < length ?out \<Longrightarrow> Some (?out ! j) =
            (if j < ?n
             then Some (foldl merge_entry_attributes (?ord1 ! j) (group_of ?a1 es j))
             else merge_group (group_of ?a1 es j))"
      by simp_all
    have a: "owner_assignment iter seen ?n (e # es) = i # ?a1"
      using Some by simp
    have "Some (?out ! j) =
            (if j < ?n
             then Some (foldl merge_entry_attributes (ordered ! j) (group_of (i # ?a1) (e # es) j))
             else merge_group (group_of (i # ?a1) (e # es) j))" if "j < length ?out" for j
      using nth [OF that] i by (auto simp: group_of_Cons nth_list_update)
    with len show ?thesis
      unfolding a by (simp add: step)
  qed
qed

lemma dedup_groups:
  assumes "set_iteration iter"
  shows "map Some (deduplicate_entries iter es) =
         map (\<lambda>j. merge_group (group_of (owner_assignment iter [] 0 es) es j))
           [0..<length (deduplicate_entries iter es)]"
proof -
  let ?out = "deduplicate_entries iter es"
  have out: "?out = snd (fold (dedup_step iter) es (map_of [], []))"
    by (simp add: deduplicate_entries_def)
  have nth: "Some (?out ! j) = merge_group (group_of (owner_assignment iter [] 0 es) es j)"
    if "j < length ?out" for j
    using fold_groups [OF assms, of "[]" "[]" es] that unfolding out by simp
  show ?thesis
    by (rule nth_equalityI) (simp_all add: nth)
qed

lemma keys_a: "entry_keys remdups ex_a = [''alpha'']"
  by code_simp

lemma keys_c: "entry_keys remdups ex_c = [''gamma'']"
  by code_simp

lemma keys_b: "entry_keys remdups ex_b = [''gamma'', ''alpha'']"
  by code_simp

lemma keys_owner: "entry_keys remdups ex_owner = [''exalted-orb'', ''exalted orb'']"
  by code_simp

lemma keys_dup: "entry_keys remdups ex_dup = [''exalted-orb'', ''exalted-orb'', ''exalted orb'']"
  by code_simp

lemma set_iteration_remdups: "set_iteration remdups"
  by (simp add: set_iteration_def)

text \<open>
  C2 (as stated, refuted). The claim reads: whenever two input entities' key sets intersect,
  exactly one entity for them remains after deduplication. The entities \<open>ex_a\<close> (name
  Alpha) and \<open>ex_b\<close> (name Alpha, external id gamma) share the key \<open>alpha\<close>; \<open>ex_c\<close>
  (name Gamma) comes between them. The key list of \<open>ex_b\<close> starts with the keys of its
  external id, whose owner is \<open>ex_c\<close>: \<open>ex_b\<close> is merged into \<open>ex_c\<close> (which takes its
  value 3), \<open>ex_a\<close> stays, and two entities remain for the pair.
\<close>

theorem dedup_transitive_counterexample:
  "shares_key remdups ex_a ex_b
   \<and> deduplicate_entries remdups [ex_a, ex_c, ex_b] = [ex_a, ex_c\<lparr>chaos_value := 3\<rparr>]
   \<and> length (filter (\<lambda>e. shares_key remdups e ex_a \<or> shares_key remdups e ex_b)
        (deduplicate_entries remdups [ex_a, ex_c, ex_b])) = 2"
proof -
  have out: "deduplicate_entries remdups [ex_a, ex_c, ex_b] = [ex_a, ex_c\<lparr>chaos_value := 3\<rparr>]"
    by code_simp
  have "entry_keys remdups (ex_c\<lparr>chaos_value := 3\<rparr>) = entry_keys remdups ex_c"
    by (simp add: entry_keys_def)
  then show ?thesis
    unfolding out by (simp add: shares_key_def keys_a keys_b keys_c)
qed

text \<open>
  C2 (amended). For every list of entities given to the Deduplicator, no two distinct
  entities of the returned list share a normalized key. The returned entities are, in
  encounter order and with their name and external id unchanged, the input entities none
  of whose keys occurs among the keys of an earlier input entity. Every other input entity
  is merged into exactly one returned entity: the owner of the first key, in the order of
  its key list, that an earlier entity carried, where the owner of a key is the owner of
  the first entity that carried it (that entity itself if it was returned). Each returned
  entity is its input entity with the entities merged into it merged one after the other
  in encounter order. So two input entities whose key sets intersect remain two returned
  entities when the later one is merged into the owner of another of its keys.
\<close>

theorem dedup_owners:
  assumes "set_iteration iter"
  shows "(\<forall>i j. i < j \<and> j < length (deduplicate_entries iter es) \<longrightarrow>
            set (entry_keys iter (deduplicate_entries iter es ! i))
              \<inter> set (entry_keys iter (deduplicate_entries iter es ! j)) = {})
         \<and> map entry_ident (deduplicate_entries iter es) = map entry_ident (first_owners iter [] es)
         \<and> map Some (deduplicate_entries iter es) =
             map (\<lambda>j. merge_group (group_of (owner_assignment iter [] 0 es) es j))
               [0..<length (first_owners iter [] es)]"
proof -
  have ident: "map entry_ident (deduplicate_entries iter es) = map entry_ident (first_owners iter [] es)"
    using fold_first_owners [OF assms, of Map.empty "[]" es "[]"]
    by (simp add: deduplicate_entries_def)
  have len: "length (deduplicate_entries iter es) = length (first_owners iter [] es)"
    using arg_cong [OF ident, of length] by simp
  have "i < j \<Longrightarrow> j < length (deduplicate_entries iter es) \<Longrightarrow>
            set (entry_keys iter (deduplicate_entries iter es ! i))
              \<inter> set (entry_keys iter (deduplicate_entries iter es ! j)) = {}" for i j
    using dedup_disjoint [of iter es]
    by (simp add: sorted_wrt_iff_nth_less)
  with ident dedup_groups [OF assms, of es] show ?thesis
    unfolding len by blast
qed

theorem dedup_owners_witness:
  "set_iteration remdups
   \<and> owner_assignment remdups [] 0 [ex_a, ex_c, ex_b] = [0, 1, 1]
   \<and> deduplicate_entries remdups [ex_a, ex_c, ex_b] = [ex_a, merge_entry_attributes ex_c ex_b]
   \<and> set (entry_keys remdups (deduplicate_entries remdups [ex_a, ex_c, ex_b] ! 0))
       \<inter> set (entry_keys remdups (deduplicate_entries remdups [ex_a, ex_c, ex_b] ! 1)) = {}"
proof -
  note inst = dedup_owners [OF set_iteration_remdups, of "[ex_a, ex_c, ex_b]"]
  have a: "owner_assignment remdups [] 0 [ex_a, ex_c, ex_b] = [0, 1, 1]"
    by (simp add: keys_a keys_b keys_c first_owned_def)
  have fo: "first_owners remdups [] [ex_a, ex_c, ex_b] = [ex_a, ex_c]"
    by (simp add: keys_a keys_b keys_c)
  have "map Some (deduplicate_entries remdups [ex_a, ex_c, ex_b])
        = map Some [ex_a, merge_entry_attributes ex_c ex_b]"
    using inst unfolding a fo by (simp add: group_of_def numeral_2_eq_2)
  then have eq: "deduplicate_entries remdups [ex_a, ex_c, ex_b] = [ex_a, merge_entry_attributes ex_c ex_b]"
    by (simp only: inj_map_eq_map [OF inj_Some])
  have "set (entry_keys remdups (deduplicate_entries remdups [ex_a, ex_c, ex_b] ! 0))
       \<inter> set (entry_keys remdups (deduplicate_entries remdups [ex_a, ex_c, ex_b] ! 1)) = {}"
    using inst [THEN conjunct1, rule_format, of 0 1] unfolding eq by simp
  with a eq show ?thesis
    by (simp add: set_iteration_remdups)
qed

text \<open>
  C4 (as stated, refuted). The claim reads: any attribute, the external id included, that
  is set on at least one of two merged entities is set on the merged entity. The owner
  \<open>ex_owner\<close> (Exalted Orb, no external id) and the duplicate \<open>ex_dup\<close> (Exalted Orb,
  external id exalted-orb) are merged by the Deduplicator, and the entity that remains has
  no external id: \<^verbatim>\<open>_merge_entry_attributes\<close> never assigns \<^verbatim>\<open>details_id\<close>.
\<close>

theorem merge_external_id_counterexample:
  "details_id ex_dup = Some ''exalted-orb''
   \<and> deduplicate_entries remdups [ex_owner, ex_dup] = [merge_entry_attributes ex_owner ex_dup]
   \<and> details_id (merge_entry_attributes ex_owner ex_dup) = None"
proof -
  have "shares_key remdups ex_owner ex_dup"
    by (simp add: shares_key_def keys_owner keys_dup)
  then have "deduplicate_entries remdups [ex_owner, ex_dup] = [merge_entry_attributes ex_owner ex_dup]"
    by (rule dedup_pair)
  then show ?thesis
    by (simp add: ex_owner_def ex_dup_def new_entry_def)
qed

text \<open>
  C4 (amended). For every owner and duplicate merged by the Deduplicator: the merged base
  value is the maximum of the two; the baseline ratio and the change percent are set on the
  merged entity exactly when set on one of the two; the trend series is non-empty, the
  trade volume non-zero and the icon non-empty exactly when so on one of the two; a
  non-empty trend series, a non-zero trade volume, a change percent and a non-empty icon
  of the owner are kept as they are, and a trade volume or an icon set on the owner stays
  set; the name, the external id and the premium ratio of the merged entity are the
  owner's (those of the duplicate are not copied).
\<close>

theorem merge_entry_attributes_keeps:
  "(let m = merge_entry_attributes target source in
      chaos_value m = max (chaos_value target) (chaos_value source)
    \<and> (divine_value m \<noteq> None \<longleftrightarrow> divine_value target \<noteq> None \<or> divine_value source \<noteq> None)
    \<and> (change_percent m \<noteq> None \<longleftrightarrow> change_percent target \<noteq> None \<or> change_percent source \<noteq> None)
    \<and> (sparkline m \<noteq> [] \<longleftrightarrow> sparkline target \<noteq> [] \<or> sparkline source \<noteq> [])
    \<and> (truthy_int (trade_count m) \<longleftrightarrow> truthy_int (trade_count target) \<or> truthy_int (trade_count source))
    \<and> (truthy_str (icon_url m) \<longleftrightarrow> truthy_str (icon_url target) \<or> truthy_str (icon_url source))
    \<and> (sparkline target \<noteq> [] \<longrightarrow> sparkline m = sparkline target)
    \<and> (truthy_int (trade_count target) \<longrightarrow> trade_count m = trade_count target)
    \<and> (change_percent target \<noteq> None \<longrightarrow> change_percent m = change_percent target)
    \<and> (truthy_str (icon_url target) \<longrightarrow> icon_url m = icon_url target)
    \<and> (trade_count target \<noteq> None \<longrightarrow> trade_count m \<noteq> None)
    \<and> (icon_url target \<noteq> None \<longrightarrow> icon_url m \<noteq> None)
    \<and> name m = name target \<and> details_id m = details_id target
    \<and> exalt_value m = exalt_value target)"
  by (auto simp: merge_entry_attributes_def Let_def truthy_int_def truthy_str_def
      split: option.splits)

theorem merge_entry_attributes_keeps_witness:
  "chaos_value (merge_entry_attributes
      (ex_owner\<lparr>sparkline := [1, 2], icon_url := Some ''a.png''\<rparr>)
      (ex_dup\<lparr>chaos_value := 13, trade_count := Some 7, sparkline := [3]\<rparr>)) = 13
   \<and> sparkline (merge_entry_attributes
      (ex_owner\<lparr>sparkline := [1, 2], icon_url := Some ''a.png''\<rparr>)
      (ex_dup\<lparr>chaos_value := 13, trade_count := Some 7, sparkline := [3]\<rparr>)) = [1, 2]
   \<and> icon_url (merge_entry_attributes
      (ex_owner\<lparr>sparkline := [1, 2], icon_url := Some ''a.png''\<rparr>)
      (ex_dup\<lparr>chaos_value := 13, trade_count := Some 7, sparkline := [3]\<rparr>)) = Some ''a.png''
   \<and> truthy_int (trade_count (merge_entry_attributes
      (ex_owner\<lparr>sparkline := [1, 2], icon_url := Some ''a.png''\<rparr>)
      (ex_dup\<lparr>chaos_value := 13, trade_count := Some 7, sparkline := [3]\<rparr>)))"
  using merge_entry_attributes_keeps
    [of "ex_owner\<lparr>sparkline := [1, 2], icon_url := Some ''a.png''\<rparr>"
        "ex_dup\<lparr>chaos_value := 13, trade_count := Some 7, sparkline := [3]\<rparr>"]
  by (simp add: Let_def ex_owner_def ex_dup_def new_entry_def truthy_int_def truthy_str_def)

text \<open>
  C10. When the Deduplicator merges a duplicate into an owner (their key sets intersect)
  and both carry a baseline-unit ratio, the entity that remains carries the larger of the
  two ratios: a ratio already set on the owner is replaced when the duplicate's is larger.
\<close>

theorem dedup_divine_max:
  assumes "shares_key iter target source"
    and "divine_value target = Some a" and "divine_value source = Some b"
  shows "deduplicate_entries iter [target, source] = [merge_entry_attributes target source]
         \<and> divine_value (merge_entry_attributes target source) = Some (max a b)"
proof -
  have "divine_value (merge_entry_attributes target source) = Some (max a b)"
    using assms(2,3) by (auto simp: merge_entry_attributes_def Let_def)
  with dedup_pair [OF assms(1)] show ?thesis by simp
qed

theorem dedup_divine_max_witness:
  "shares_key remdups (ex_owner\<lparr>divine_value := Some 1\<rparr>) (ex_dup\<lparr>divine_value := Some 2\<rparr>)
   \<and> map divine_value (deduplicate_entries remdups
        [ex_owner\<lparr>divine_value := Some 1\<rparr>, ex_dup\<lparr>divine_value := Some 2\<rparr>]) = [Some 2]"
proof -
  have k1: "entry_keys remdups (ex_owner\<lparr>divine_value := Some 1\<rparr>) = entry_keys remdups ex_owner"
    and k2: "entry_keys remdups (ex_dup\<lparr>divine_value := Some 2\<rparr>) = entry_keys remdups ex_dup"
    by (simp_all add: entry_keys_def)
  have sh: "shares_key remdups (ex_owner\<lparr>divine_value := Some 1\<rparr>) (ex_dup\<lparr>divine_value := Some 2\<rparr>)"
    by (simp add: shares_key_def k1 k2 keys_owner keys_dup)
  show ?thesis
    using sh dedup_divine_max [OF sh, of 1 2] by simp
qed

subsection \<open>Derived Ratio Calculator and snapshot ordering\<close>

lemma exalt_scan_filter:
  "exalt_scan es acc = acc @ [chaos_value e. e \<leftarrow> es, code_candidate e]"
  by (induction es arbitrary: acc) (auto simp: Let_def code_candidate_def has_qualifier_def)

lemma exalt_scan_loose_filter:
  "exalt_scan_loose es acc = acc @ [chaos_value e. e \<leftarrow> es, loose_match e \<and> chaos_value e > 0]"
  by (induction es arbitrary: acc) (auto simp: loose_match_def)

lemma py_min_Min: "py_min m xs = Min (set (m # xs))"
proof (induction xs arbitrary: m)
  case Nil
  then show ?case by simp
next
  case (Cons x xs)
  have m: "(if x < m then x else m) = min x m" by (simp add: min_def)
  have "Min (insert (min x m) (set xs)) = Min (insert m (insert x (set xs)))"
  proof (cases "set xs = {}")
    case True
    then show ?thesis by (simp add: min.commute)
  next
    case False
    then show ?thesis by (simp add: min.assoc min.commute min.left_commute)
  qed
  with Cons m show ?case by simp
qed

lemma candidates_positive: "x \<in> set (reference_candidates es) \<Longrightarrow> x > 0"
  by (auto simp: reference_candidates_def Let_def code_candidate_def split: if_splits)

lemma exalt_price_eq:
  "exalt_price es = (if reference_candidates es = [] then None
                     else Some (Min (set (reference_candidates es))))"
proof -
  have c: "(let candidates = exalt_scan es [];
          candidates = (if candidates = [] then exalt_scan_loose es candidates else candidates)
      in candidates) = reference_candidates es"
    by (simp add: exalt_scan_filter exalt_scan_loose_filter reference_candidates_def Let_def)
  show ?thesis
  proof (cases "reference_candidates es")
    case Nil
    with c show ?thesis by (simp add: exalt_price_def Let_def)
  next
    case (Cons x xs)
    with c show ?thesis by (simp add: exalt_price_def Let_def py_min_Min)
  qed
qed


lemma apply_exalted_values_cases:
  "apply_exalted_values es =
     (case exalt_price es of
        None \<Rightarrow> es
      | Some p \<Rightarrow> map (\<lambda>e. e\<lparr>exalt_value :=
            (if chaos_value e = 0 then None else Some (chaos_value e / p))\<rparr>) es)"
proof (cases "exalt_price es")
  case None
  then show ?thesis by (simp add: apply_exalted_values_def truthy_float_def)
next
  case (Some p)
  then have "reference_candidates es \<noteq> []" and p: "p = Min (set (reference_candidates es))"
    by (auto simp: exalt_price_eq split: if_splits)
  then have "p \<in> set (reference_candidates es)"
    using Min_in [of "set (reference_candidates es)"] by simp
  then have "p > 0" by (rule candidates_positive)
  with Some show ?thesis
    by (auto simp: apply_exalted_values_def truthy_float_def Let_def)
qed

text \<open>
  C5 (amended). The reference price is the minimum of the candidates, each a positive base
  value: the values of the entities whose lower-cased name contains ``exalted orb'' and
  neither ``perfect'' nor ``greater'', or whose lower-cased external id is ``exalted-orb'';
  and, only when there is no such candidate, the values of all entities whose name
  contains ``exalt'', a qualifier in the name excluding nothing there. If a reference is
  found, every entity with a non-zero base value gets the premium ratio base value divided
  by the reference, and every entity with base value zero gets none; if none is found, the
  entities are left as they are.
\<close>

theorem apply_exalted_values_ratio:
  "exalt_price es = (if reference_candidates es = [] then None
                     else Some (Min (set (reference_candidates es))))
   \<and> (exalt_price es = None \<longrightarrow> apply_exalted_values es = es)
   \<and> (\<forall>p. exalt_price es = Some p \<longrightarrow>
         0 < p \<and> p \<in> set (reference_candidates es)
         \<and> apply_exalted_values es =
             map (\<lambda>e. e\<lparr>exalt_value :=
               (if chaos_value e = 0 then None else Some (chaos_value e / p))\<rparr>) es)"
proof -
  have "0 < p \<and> p \<in> set (reference_candidates es)" if "exalt_price es = Some p" for p
  proof -
    from that have "reference_candidates es \<noteq> []" and p: "p = Min (set (reference_candidates es))"
      by (auto simp: exalt_price_eq split: if_splits)
    then have "p \<in> set (reference_candidates es)"
      using Min_in [of "set (reference_candidates es)"] by simp
    then show ?thesis using candidates_positive by blast
  qed
  then show ?thesis
    by (simp add: exalt_price_eq [symmetric] apply_exalted_values_cases)
qed

lemma cands_market: "reference_candidates ex_market = [25 / 2, 10]"
  by code_simp

theorem apply_exalted_values_ratio_witness:
  "exalt_price ex_market = Some 10
   \<and> map exalt_value (apply_exalted_values ex_market) = [Some (5 / 4), Some 1, Some (1 / 10), None]"
proof -
  have p: "exalt_price ex_market = Some 10"
    using apply_exalted_values_ratio [of ex_market] by (simp add: cands_market)
  have "apply_exalted_values ex_market =
             map (\<lambda>e. e\<lparr>exalt_value :=
               (if chaos_value e = 0 then None else Some (chaos_value e / 10))\<rparr>) ex_market"
    using apply_exalted_values_ratio [of ex_market] p by simp
  then show ?thesis
    using p by (simp add: ex_market_def new_entry_def)
qed

text \<open>
  C5 (as stated, refuted). The claim reads: entities whose names contain a ``perfect'' or
  ``greater'' qualifier are excluded from the identification of the premium-unit item. In
  the list \<open>ex_greater\<close> (Greater Exalted Orb at 20, Chaos Orb at 1) no entity qualifies
  under that reading, so no reference should be found and no ratio stamped; the second scan
  of the code accepts every name containing ``exalt'', takes 20 as the reference and stamps
  both entities.
\<close>

theorem exalt_qualifier_counterexample:
  "reference_candidates_spec ex_greater = []
   \<and> map exalt_value (apply_exalted_values ex_greater) = [Some 1, Some (1 / 20)]"
  by code_simp

lemma sorted_desc: "sorted_wrt (\<lambda>a b. chaos_value a \<ge> chaos_value b) (sort_by_chaos_desc es)"
proof -
  have "sorted (map chaos_value (sort_key chaos_value (rev es)))" by (rule sorted_sort_key)
  then have "sorted_wrt (\<lambda>a b. chaos_value a \<le> chaos_value b) (sort_key chaos_value (rev es))"
    by (simp add: sorted_wrt_map)
  then show ?thesis
    by (simp add: sort_by_chaos_desc_def sorted_wrt_rev)
qed

lemma stable_desc:
  "filter (\<lambda>e. chaos_value e = v) (sort_by_chaos_desc es) = filter (\<lambda>e. chaos_value e = v) es"
  by (simp add: sort_by_chaos_desc_def rev_filter [symmetric] sort_key_stable)

lemma apply_exalted_map:
  "\<exists>g. apply_exalted_values es = map g es
       \<and> (\<forall>e. chaos_value (g e) = chaos_value e \<and> without_exalt (g e) = without_exalt e)"
proof (cases "exalt_price es")
  case None
  then have "apply_exalted_values es = map (\<lambda>e. e) es"
    by (simp add: apply_exalted_values_cases)
  then show ?thesis by (intro exI [of _ "\<lambda>e. e"]) simp
next
  case (Some p)
  let ?g = "\<lambda>e. e\<lparr>exalt_value := (if chaos_value e = 0 then None else Some (chaos_value e / p))\<rparr>"
  from Some have "apply_exalted_values es = map ?g es"
    by (simp add: apply_exalted_values_cases)
  then show ?thesis by (intro exI [of _ ?g]) (simp add: without_exalt_def)
qed

lemma apply_exalted_sorted:
  "sorted_wrt (\<lambda>a b. chaos_value a \<ge> chaos_value b) es \<Longrightarrow>
   sorted_wrt (\<lambda>a b. chaos_value a \<ge> chaos_value b) (apply_exalted_values es)"
proof -
  assume s: "sorted_wrt (\<lambda>a b. chaos_value a \<ge> chaos_value b) es"
  obtain g where g: "apply_exalted_values es = map g es"
    "\<forall>e. chaos_value (g e) = chaos_value e \<and> without_exalt (g e) = without_exalt e"
    using apply_exalted_map by blast
  with s show ?thesis by (simp add: sorted_wrt_map)
qed

lemma apply_exalted_filter:
  "map without_exalt (filter (\<lambda>e. chaos_value e = v) (apply_exalted_values es))
   = map without_exalt (filter (\<lambda>e. chaos_value e = v) es)"
proof -
  obtain g where g: "apply_exalted_values es = map g es"
    "\<forall>e. chaos_value (g e) = chaos_value e \<and> without_exalt (g e) = without_exalt e"
    using apply_exalted_map by blast
  then show ?thesis by (simp add: filter_map comp_def)
qed

text \<open>
  C3 (base values that are numbers). The base value of an entity is a real number here; a
  float that is not a number (NaN, which \<^verbatim>\<open>_extract_float\<close> returns for the string
  \<^verbatim>\<open>"nan"\<close>, and which \<^verbatim>\<open>json.loads\<close> accepts as a literal) has no counterpart. For
  base values that are numbers the entities of the snapshot returned by either pipeline
  are in descending order of base value, and the entities of any one base value are, but
  for the premium ratio stamped after the sort, the entities of that value in their order
  before the sort. With a NaN among the base values every comparison with it is false,
  \<^verbatim>\<open>list.sort\<close> leaves the values \<open>1, NaN, 3, 2\<close> in that order, and the returned
  entities are not in descending order: the lemma does not reach that input.
\<close>

lemma snapshot_entries_sorted_numbers:
  "sorted_wrt (\<lambda>a b. chaos_value a \<ge> chaos_value b)
      (entries (poe2_snapshot_tail iter lg cat src now rate es))
   \<and> (\<forall>v. map without_exalt (filter (\<lambda>e. chaos_value e = v)
               (entries (poe2_snapshot_tail iter lg cat src now rate es)))
          = map without_exalt (filter (\<lambda>e. chaos_value e = v)
               (stamp_divine rate (deduplicate_entries iter es))))
   \<and> sorted_wrt (\<lambda>a b. chaos_value a \<ge> chaos_value b)
      (entries (poe_snapshot_tail lg cat src now es))
   \<and> (\<forall>v. map without_exalt (filter (\<lambda>e. chaos_value e = v)
               (entries (poe_snapshot_tail lg cat src now es)))
          = map without_exalt (filter (\<lambda>e. chaos_value e = v) es))"
  by (simp add: poe2_snapshot_tail_def poe_snapshot_tail_def Let_def
      apply_exalted_sorted sorted_desc apply_exalted_filter stable_desc)

subsection \<open>Bounded detail fetch\<close>

lemma try_detail_two:
  "snd (try_detail_endpoints net [0, 1] item_id reqs) =
     (if answers (net (length reqs) 0 item_id) then reqs @ [(0, item_id)]
      else reqs @ [(0, item_id), (1, item_id)])"
  by (simp add: answers_def split: response.splits json.splits)

lemma fetch_details_loop_requests:
  "index + length ids \<le> MAX_DETAIL_ENTRIES \<Longrightarrow>
   snd (fetch_details_loop net index ids details reqs) = lookup_requests net ids reqs"
proof (induction ids arbitrary: index details reqs)
  case Nil
  then show ?case by simp
next
  case (Cons item_id ids)
  then have lt: "\<not> index \<ge> MAX_DETAIL_ENTRIES" and le: "Suc index + length ids \<le> MAX_DETAIL_ENTRIES"
    by simp_all
  obtain r reqs1 where t: "try_detail_endpoints net [0, 1] item_id reqs = (r, reqs1)"
    by (cases "try_detail_endpoints net [0, 1] item_id reqs")
  have r1: "reqs1 = (if answers (net (length reqs) 0 item_id) then reqs @ [(0, item_id)]
      else reqs @ [(0, item_id), (1, item_id)])"
    using try_detail_two [of net item_id reqs] t by simp
  define d1 where "d1 = (case r of None \<Rightarrow> details | Some d \<Rightarrow> details(item_id \<mapsto> d))"
  have "fetch_details_loop net index (item_id # ids) details reqs =
        fetch_details_loop net (Suc index) ids d1 reqs1"
    using lt t by (simp add: d1_def split: option.splits)
  then show ?case
    using Cons.IH [OF le, of d1 reqs1] r1 by simp
qed

lemma lookup_requests_ids:
  "snd ` set (lookup_requests net ids reqs) = snd ` set reqs \<union> set ids"
  by (induction ids arbitrary: reqs) auto

lemma lookup_requests_length:
  "length (lookup_requests net ids reqs) \<le> length reqs + 2 * length ids"
proof (induction ids arbitrary: reqs)
  case Nil
  then show ?case by simp
next
  case (Cons item_id ids)
  show ?case
    using Cons.IH [of "reqs @ [(0, item_id)]"] Cons.IH [of "reqs @ [(0, item_id), (1, item_id)]"]
    by simp
qed

lemma detail_ids_length: "length (detail_ids es) \<le> MAX_DETAIL_ENTRIES"
  unfolding detail_ids_def
  by (rule order_trans [OF _ min.cobounded2 [of "length es"]])
     (simp add: order_trans [OF length_filter_le])

lemma detail_requests_lookup:
  "detail_requests net es = lookup_requests net (detail_ids es) []"
  using fetch_details_loop_requests [of 0 "detail_ids es" net Map.empty "[]"] detail_ids_length [of es]
  by (simp add: detail_requests_def fetch_poe2_exchange_details_def)

lemma ids_fifty_one: "detail_ids ex_fifty_one = replicate 50 ''scrap''"
  by (simp add: detail_ids_def ex_fifty_one_def MAX_DETAIL_ENTRIES_def new_entry_def truthy_str_def)

text \<open>
  C7 (as stated, refuted). The claim reads: the entities selected for a detail lookup are the
  top entities by base-unit value at that point. In \<open>ex_fifty_one\<close> fifty entities of
  value 1 precede one of value 1000, each with an external id: the lookups go to the fifty
  (two requests each while the servers fail) and none to the entity of the highest value.
  The list is sliced in its encounter order; it is sorted only later (line 516).
\<close>

theorem detail_ids_not_top_counterexample:
  "chaos_value (ex_fifty_one ! 50) = 1000
   \<and> details_id (ex_fifty_one ! 50) = Some ''mirror''
   \<and> chaos_value (ex_fifty_one ! 0) = 1
   \<and> detail_ids ex_fifty_one = replicate 50 ''scrap''
   \<and> snd ` set (detail_requests net_down ex_fifty_one) = {''scrap''}
   \<and> length (detail_requests net_down ex_fifty_one) = 100"
proof -
  have "snd ` set (detail_requests net_down ex_fifty_one) = {''scrap''}
        \<and> length (detail_requests net_down ex_fifty_one) = 100"
    by code_simp
  moreover have "ex_fifty_one ! 50 = new_entry ''Mirror'' 1000 (Some ''mirror'')"
    by (simp add: ex_fifty_one_def nth_append)
  moreover have "ex_fifty_one ! 0 = new_entry ''Scrap'' 1 (Some ''scrap'')"
    by (simp add: ex_fifty_one_def nth_append)
  ultimately show ?thesis
    by (simp add: ids_fifty_one new_entry_def)
qed

text \<open>
  C7 (amended). The entities selected for a detail lookup are the entities with a
  non-empty external id among the first 50 of the entry list in its order at that point
  of the pipeline (encounter order, not order of value): at most 50. For each of them in
  turn, and for no other id, the phase issues one request to the first endpoint variant
  and, unless that request is answered by a non-empty object, one to the second: at most
  two requests for each. No lookup is issued for an entity whose external id is absent or
  empty.
\<close>

theorem detail_requests_bounded:
  "detail_ids es =
     map (\<lambda>e. the (details_id e)) (filter (\<lambda>e. truthy_str (details_id e)) (take 50 es))
   \<and> length (detail_ids es) \<le> 50
   \<and> detail_requests net es = lookup_requests net (detail_ids es) []
   \<and> snd ` set (detail_requests net es) = set (detail_ids es)
   \<and> length (detail_requests net es) \<le> 2 * length (detail_ids es)"
proof -
  have "length (detail_ids es) \<le> 50"
    using detail_ids_length [of es] by (simp add: MAX_DETAIL_ENTRIES_def)
  moreover have "snd ` set (detail_requests net es) = set (detail_ids es)"
    by (simp add: detail_requests_lookup lookup_requests_ids)
  moreover have "length (detail_requests net es) \<le> 2 * length (detail_ids es)"
    using lookup_requests_length [of net "detail_ids es" "[]"] by (simp add: detail_requests_lookup)
  ultimately show ?thesis
    by (simp add: detail_requests_lookup) (simp add: detail_ids_def MAX_DETAIL_ENTRIES_def)
qed

subsection \<open>Source Fetchers\<close>

lemma once_well_shaped: "well_shaped r \<Longrightarrow> \<exists>items. fetch_poe2_items_once r = Inr items"
  by (induction r rule: fetch_poe2_items_once.induct) (auto split: json.splits)

lemma items_alias_loop_well_shaped:
  "\<forall>n a. well_shaped (net n a) \<Longrightarrow> \<exists>items. items_alias_loop net aliases tried n = Inr items"
proof (induction aliases arbitrary: tried n)
  case Nil
  then show ?case by simp
next
  case (Cons a rest)
  obtain items where "fetch_poe2_items_once (net n a) = Inr items"
    using once_well_shaped Cons.prems by blast
  with Cons show ?case by simp
qed

lemma poe2_snapshot_items_well_shaped:
  assumes "\<forall>n a. well_shaped (net n a)"
  shows "(\<exists>items. items \<noteq> [] \<and> poe2_snapshot_items net category lg exchange_items = Inr items)
         \<or> (exchange_items = []
             \<and> fetch_poe2_items_with_aliases net category = Inr []
             \<and> poe2_snapshot_items net category lg exchange_items
                 = Inl (ApiError (no_data_message category lg)))"
proof -
  define al where "al = (case map_of POE2_OVERVIEW_ALIASES (lower category) of
                           Some a \<Rightarrow> a | None \<Rightarrow> [category]) @ POE2_FALLBACK_OVERVIEWS"
  from items_alias_loop_well_shaped [OF assms, of al "[]" 0]
  obtain items where "items_alias_loop net al [] 0 = Inr items" by blast
  then have "fetch_poe2_items_with_aliases net category = Inr items"
    by (simp add: fetch_poe2_items_with_aliases_def Let_def al_def)
  then show ?thesis
    by (cases "exchange_items = []"; cases "items = []")
       (simp_all add: poe2_snapshot_items_def bind_exn_def)
qed

lemma alias_cascade_second_alias:
  "poe2_snapshot_items net_second ''Omens'' ''Standard'' [] = Inr [JDict [], JDict [], JDict []]"
  by code_simp

text \<open>
  C6 (the code departs from the claim). The claim reads: the failure of any individual
  candidate is caught locally, never surfaced, and the next candidate is tried; the only
  error that reaches the caller is the one naming the category and league. When the
  exchange overview yields no rows and the temporary overview answers an alias with a body
  that decodes to a JSON value other than an object (here \<^verbatim>\<open>[]\<close>),
  \<^verbatim>\<open>_fetch_poe2_items_once\<close> calls \<^verbatim>\<open>data.get\<close> on it: the \<^verbatim>\<open>AttributeError\<close> is
  caught nowhere, the remaining aliases are not tried, and the caller receives it in place
  of the retrieval error. \<^verbatim>\<open>_fetch_poe2_exchange_overview\<close> guards the same read with
  \<^verbatim>\<open>isinstance(data, dict)\<close>.
\<close>

theorem alias_array_body_raises:
  "fetch_poe2_items_once (net_array 0 ''Ritual'') = Inl AttributeError
   \<and> fetch_poe2_items_with_aliases net_array ''Omens'' = Inl AttributeError
   \<and> poe2_snapshot_items net_array ''Omens'' ''Standard'' [] = Inl AttributeError"
  by code_simp

subsection \<open>Unmatched overview lines\<close>















end
